theory Spec2Isabelle
  imports Main "HOL-Library.Sublist" "HOL-Library.Char_ord" "HOL-Library.List_Lexorder" "HOL-Library.AList"
begin

section \<open>Go standard library used by the root-scoping layer\<close>

text \<open>
  Go strings are byte sequences, modelled as \<open>string\<close> (a list of 8-bit characters).
  The byte-level helpers of package \<open>strings\<close> that the code calls are written out.
  \<open>SplitN\<close> is given for a one-byte separator, the only way the code calls it
  (\<open>strings.SplitN(path, "/", 3)\<close>): it cuts at the first \<open>n - 1\<close> separators and
  leaves the remainder unsplit in the last piece.
\<close>

definition TrimPrefix :: "string \<Rightarrow> string \<Rightarrow> string" where
  "TrimPrefix s p = (if prefix p s then drop (length p) s else s)"

definition TrimSuffix :: "string \<Rightarrow> string \<Rightarrow> string" where
  "TrimSuffix s p = (if suffix p s then take (length s - length p) s else s)"

fun SplitN :: "string \<Rightarrow> char \<Rightarrow> nat \<Rightarrow> string list" where
  "SplitN s sep 0 = []"
| "SplitN s sep (Suc 0) = [s]"
| "SplitN s sep (Suc (Suc n)) =
     (if sep \<in> set s
      then takeWhile (\<lambda>c. c \<noteq> sep) s # SplitN (tl (dropWhile (\<lambda>c. c \<noteq> sep) s)) sep (Suc n)
      else [s])"

fun Join :: "string list \<Rightarrow> string \<Rightarrow> string" where
  "Join [] sep = []"
| "Join [x] sep = x"
| "Join (x # y # ys) sep = x @ sep @ Join (y # ys) sep"

text \<open>
  The fields of \<open>net/url.URL\<close> that the parser reads.
\<close>

record URL =
  Scheme :: string
  Host :: string
  Path :: string

text \<open>
  The library functions whose result depends on Unicode tables, on the URL grammar or on
  the runtime are parameters of the model, collected in one record: \<open>url.Parse\<close>
  (\<open>None\<close> is its error return), \<open>strings.ToLower\<close>, \<open>strings.EqualFold\<close>,
  the \<open>%q\<close> verb of \<open>fmt.Sprintf\<close> (\<open>strconv.Quote\<close>), and the order in which
  \<open>range\<close> visits the keys of a map, which Go leaves unspecified: the keys are
  visited by increasing \<open>range_rank\<close>, so every order of the keys can be had and each
  key is visited once.
\<close>

record stdlib =
  url_Parse :: "string \<Rightarrow> URL option"
  ToLower :: "string \<Rightarrow> string"
  EqualFold :: "string \<Rightarrow> string \<Rightarrow> bool"
  Quote :: "string \<Rightarrow> string"
  range_rank :: "string \<Rightarrow> nat"

section \<open>Root URI parsing\<close>

datatype parse_error =
    ErrInvalidURI string
  | ErrUnsupportedScheme string string
  | ErrHostMismatch string string
  | ErrNoPathExpected string
  | ErrNoPath string
  | ErrNoOwnerRepo string
  | ErrEmptyRepo string

text \<open>
  \<open>ParseGitHubRootURI\<close> as defined beside the \<open>Root\<close> type: the variant that the two
  middlewares call. It accepts an organisation-level URI and lowercases both names.
\<close>

definition ParseGitHubRootURI :: "stdlib \<Rightarrow> string \<Rightarrow> string \<Rightarrow> parse_error + (string \<times> string)" where
  "ParseGitHubRootURI L uri host0 =
     (let host = (if host0 = [] then ''github.com'' else host0) in
      case url_Parse L uri of
        None \<Rightarrow> Inl (ErrInvalidURI uri)
      | Some parsed \<Rightarrow>
          if Scheme parsed \<notin> {''https'', ''http'', ''git''}
          then Inl (ErrUnsupportedScheme (Scheme parsed) uri)
          else if \<not> EqualFold L (Host parsed) host
          then Inl (ErrHostMismatch (Host parsed) host)
          else
            let path = TrimSuffix (TrimPrefix (Path parsed) ''/'') ''/'' in
            if path = [] then Inl (ErrNoPathExpected uri)
            else
              let segments = SplitN path CHR ''/'' 3 in
              if length segments = 0 \<or> segments ! 0 = [] then Inl (ErrNoPath uri)
              else
                let owner = ToLower L (segments ! 0) in
                if length segments \<ge> 2 \<and> segments ! 1 \<noteq> []
                then Inr (owner, ToLower L (TrimSuffix (segments ! 1) ''.git''))
                else Inr (owner, []))"

text \<open>
  \<open>ParseGitHubRootURI\<close> as defined beside the \<open>GitHubRoot\<close> type and
  \<open>MakeOwnerRepoOptional\<close>: it requires a repository segment and keeps the case of
  both names.
\<close>

definition ParseGitHubRootURI_GitHubRoot :: "stdlib \<Rightarrow> string \<Rightarrow> string \<Rightarrow> parse_error + (string \<times> string)" where
  "ParseGitHubRootURI_GitHubRoot L uri host0 =
     (let host = (if host0 = [] then ''github.com'' else host0) in
      case url_Parse L uri of
        None \<Rightarrow> Inl (ErrInvalidURI uri)
      | Some parsed \<Rightarrow>
          if Scheme parsed \<notin> {''https'', ''http'', ''git''}
          then Inl (ErrUnsupportedScheme (Scheme parsed) uri)
          else if \<not> EqualFold L (Host parsed) host
          then Inl (ErrHostMismatch (Host parsed) host)
          else
            let path = TrimSuffix (TrimPrefix (Path parsed) ''/'') ''/'' in
            if path = [] then Inl (ErrNoPathExpected uri)
            else
              let segments = SplitN path CHR ''/'' 3 in
              if length segments < 2 \<or> segments ! 0 = [] \<or> segments ! 1 = []
              then Inl (ErrNoOwnerRepo uri)
              else
                let owner = segments ! 0;
                    repo = TrimSuffix (segments ! 1) ''.git'' in
                if repo = [] then Inl (ErrEmptyRepo uri)
                else Inr (owner, repo))"

section \<open>Resolving a session's roots\<close>

text \<open>
  \<open>mcp.Root\<close> is what the client declares; \<open>Root\<close> is the parsed form. The list
  handed to \<open>ParseGitHubRoots\<close> holds pointers, so an entry may be nil (\<open>None\<close>).
\<close>

record mcp_Root =
  root_URI :: string
  root_Name :: string

record Root =
  Owner :: string
  Repo :: string
  URI :: string
  Name :: string

fun ParseGitHubRoots :: "stdlib \<Rightarrow> mcp_Root option list \<Rightarrow> string \<Rightarrow> Root list" where
  "ParseGitHubRoots L [] host = []"
| "ParseGitHubRoots L (None # roots) host = ParseGitHubRoots L roots host"
| "ParseGitHubRoots L (Some root # roots) host =
     (case ParseGitHubRootURI L (root_URI root) host of
        Inl err \<Rightarrow> ParseGitHubRoots L roots host
      | Inr (owner, repo) \<Rightarrow>
          \<lparr>Owner = owner, Repo = repo, URI = root_URI root, Name = root_Name root\<rparr>
            # ParseGitHubRoots L roots host)"

section \<open>Requests, argument payloads and results\<close>

text \<open>
  A decoded JSON value (Go's \<open>any\<close> after \<open>json.Unmarshal\<close>). Neither middleware
  looks inside a number, so its value is kept as an integer. A Go \<open>map[string]any\<close> is
  an association list with distinct keys, read with \<open>map_of\<close> and written with
  \<open>AList.update\<close>; the order of its entries carries no meaning.
\<close>

datatype any =
    ANil
  | ABool bool
  | ANumber int
  | AString string
  | AArray "any list"
  | AObject "(string \<times> any) list"

text \<open>
  \<open>json.RawMessage\<close>: the bytes of the argument payload, abstracted to what the decoder
  makes of them: no bytes at all, bytes that are not a JSON text, or a JSON text denoting
  a value (the members of an object in the order of the text).
\<close>

datatype raw_message = RawEmpty | RawInvalid | RawValue any

fun raw_len :: "raw_message \<Rightarrow> nat" where
  "raw_len RawEmpty = 0"
| "raw_len RawInvalid = 1"
| "raw_len (RawValue v) = 1"

text \<open>
  \<open>json.Unmarshal(bytes, &args)\<close> with \<open>args\<close> a nil \<open>map[string]any\<close>: \<open>None\<close>
  is the error return. An object fills the map member by member, a later duplicate key
  replacing the earlier one; \<open>null\<close> leaves the map nil, which reads like the empty
  map; any other value is a type error.
\<close>

fun json_Unmarshal :: "raw_message \<Rightarrow> (string \<times> any) list option" where
  "json_Unmarshal RawEmpty = None"
| "json_Unmarshal RawInvalid = None"
| "json_Unmarshal (RawValue (AObject kvs)) = Some (foldl (\<lambda>m (k, v). AList.update k v m) [] kvs)"
| "json_Unmarshal (RawValue ANil) = Some []"
| "json_Unmarshal (RawValue v) = None"

text \<open>
  The block \<open>var args map[string]any; if len(Arguments) > 0 { json.Unmarshal(...) }\<close>
  that both middlewares share: \<open>None\<close> when the decoder returns an error.
\<close>

definition decodeArguments :: "raw_message \<Rightarrow> (string \<times> any) list option" where
  "decodeArguments raw = (if raw_len raw > 0 then json_Unmarshal raw else Some [])"

text \<open>
  \<open>json.Marshal\<close> of a \<open>map[string]any\<close> writes the members sorted by key
  (bytewise). It cannot fail on values that came out of the decoder or on strings, so the
  model always returns a payload; the error return is kept in the type.
\<close>

definition json_Marshal :: "(string \<times> any) list \<Rightarrow> raw_message option" where
  "json_Marshal args = Some (RawValue (AObject (sort_key fst args)))"

datatype go_error = Error string

record ListRootsResult =
  Roots :: "mcp_Root option list"

text \<open>
  The session is the client's answer to \<open>roots/list\<close>: an error, or a result pointer
  that may be nil. The request context is not modelled: a cancelled or unsupported
  listing is the error answer.
\<close>

record ServerSession =
  ListRoots :: "go_error + ListRootsResult option"

record CallToolParamsRaw =
  tool_Name :: string
  Arguments :: raw_message

record CallToolRequest =
  Session :: "ServerSession option"
  Params :: CallToolParamsRaw

datatype Request = NilRequest | CallTool CallToolRequest | OtherRequest string

record CallToolResult =
  Content :: "string list"
  IsError :: bool

datatype Result = NilResult | ToolResult CallToolResult | OtherResult any

type_synonym MethodHandler = "string \<Rightarrow> Request \<Rightarrow> Result \<times> go_error option"

text \<open>
  Modelled from the spec: \<open>utils.NewToolResultError\<close> is not among the sources. The
  enforcement middleware's comment says its errors are returned as a \<open>CallToolResult\<close>
  with \<open>IsError: true\<close>, and its tests read the message from the first text content.
\<close>

definition NewToolResultError :: "string \<Rightarrow> CallToolResult" where
  "NewToolResultError message = \<lparr>Content = [message], IsError = True\<rparr>"

section \<open>Root-Enforcement middleware\<close>

text \<open>
  The two denial messages, as \<open>fmt.Sprintf\<close> and \<open>strings.Join\<close> build them. The
  allowed owners are the keys of a Go map, visited in the order \<open>range_rank\<close> gives.
\<close>

definition ownerDeniedMsg :: "stdlib \<Rightarrow> string \<Rightarrow> Root list \<Rightarrow> string" where
  "ownerDeniedMsg L owner ghRoots =
     (let owners = remdups (map Owner ghRoots);
          allowedList = map (Quote L) (sort_key (range_rank L) owners)
      in ''root enforcement: owner '' @ Quote L owner
           @ '' is not within configured roots (allowed owners: ''
           @ Join allowedList '', '' @ '')'')"

definition repoDeniedMsg :: "stdlib \<Rightarrow> string \<Rightarrow> string \<Rightarrow> string \<Rightarrow> Root list \<Rightarrow> string" where
  "repoDeniedMsg L owner repo ownerLower ghRoots =
     (let allowedRepos =
            map (\<lambda>r. Quote L (Repo r))
              (filter (\<lambda>r. Owner r = ownerLower \<and> Repo r \<noteq> []) ghRoots)
      in ''root enforcement: repository '' @ Quote L owner @ ''/'' @ Quote L repo
           @ '' is not within configured roots (allowed repos for '' @ Quote L owner
           @ '': '' @ Join allowedRepos '', '' @ '')'')"

text \<open>
  The middleware wraps the handler \<open>next\<close>. Every \<open>return next(ctx, method, request)\<close>
  of the source is the term \<open>next method request\<close>; a denial returns the error result
  and a nil error without calling \<open>next\<close>. Log records are not part of the returned
  value and are left out.
\<close>

definition RootsEnforcementMiddleware :: "stdlib \<Rightarrow> string \<Rightarrow> MethodHandler \<Rightarrow> MethodHandler" where
  "RootsEnforcementMiddleware L host next method request =
     (if method \<noteq> ''tools/call'' then next method request
      else case request of
        CallTool callReq \<Rightarrow>
          (case Session callReq of
             None \<Rightarrow> next method request
           | Some session \<Rightarrow>
               (case ListRoots session of
                  Inl err \<Rightarrow> next method request
                | Inr None \<Rightarrow> next method request
                | Inr (Some rootsResult) \<Rightarrow>
                    if length (Roots rootsResult) = 0 then next method request
                    else
                      let ghRoots = ParseGitHubRoots L (Roots rootsResult) host in
                      if length ghRoots = 0 then next method request
                      else
                        (case decodeArguments (Arguments (Params callReq)) of
                           None \<Rightarrow> next method request
                         | Some args \<Rightarrow>
                             (case map_of args ''owner'' of
                                None \<Rightarrow> next method request
                              | Some (AString owner) \<Rightarrow>
                                  if owner = [] then next method request
                                  else
                                    let ownerLower = ToLower L owner;
                                        ownerAllowed = list_ex (\<lambda>r. Owner r = ownerLower) ghRoots;
                                        hasOrgRoot =
                                          list_ex (\<lambda>r. Owner r = ownerLower \<and> Repo r = []) ghRoots
                                    in
                                    if \<not> ownerAllowed
                                    then (ToolResult (NewToolResultError (ownerDeniedMsg L owner ghRoots)), None)
                                    else
                                      (case map_of args ''repo'' of
                                         Some (AString repo) \<Rightarrow>
                                           if repo \<noteq> [] \<and> \<not> hasOrgRoot
                                              \<and> \<not> list_ex (\<lambda>r. Owner r = ownerLower
                                                                \<and> Repo r = ToLower L repo) ghRoots
                                           then (ToolResult (NewToolResultError
                                                   (repoDeniedMsg L owner repo ownerLower ghRoots)), None)
                                           else next method request
                                       | _ \<Rightarrow> next method request)
                              | Some ownerRaw \<Rightarrow> next method request))))
      | _ \<Rightarrow> next method request)"

section \<open>Root-Injection middleware\<close>

text \<open>
  The source assigns the new payload to \<open>callReq.Params.Arguments\<close> and then calls
  \<open>next\<close> with the same request pointer, so the handler sees the updated request.
\<close>

definition RootsMiddleware :: "stdlib \<Rightarrow> string \<Rightarrow> MethodHandler \<Rightarrow> MethodHandler" where
  "RootsMiddleware L host next method request =
     (if method \<noteq> ''tools/call'' then next method request
      else case request of
        CallTool callReq \<Rightarrow>
          (case Session callReq of
             None \<Rightarrow> next method request
           | Some session \<Rightarrow>
               (case ListRoots session of
                  Inl err \<Rightarrow> next method request
                | Inr None \<Rightarrow> next method request
                | Inr (Some rootsResult) \<Rightarrow>
                    if length (Roots rootsResult) = 0 then next method request
                    else
                      (case ParseGitHubRoots L (Roots rootsResult) host of
                         [] \<Rightarrow> next method request
                       | r0 # others \<Rightarrow>
                           let ghRoots = r0 # others;
                               repoRoots = filter (\<lambda>r. Repo r \<noteq> []) ghRoots;
                               commonOwner = Owner r0;
                               allSameOwner = list_all (\<lambda>r. Owner r = commonOwner) others
                           in
                           if \<not> allSameOwner then next method request
                           else
                             (case decodeArguments (Arguments (Params callReq)) of
                                None \<Rightarrow> next method request
                              | Some args0 \<Rightarrow>
                                  let hasOwner = (map_of args0 ''owner'' \<noteq> None);
                                      args1 = (if \<not> hasOwner
                                               then AList.update ''owner'' (AString commonOwner) args0
                                               else args0);
                                      injectRepo = (length repoRoots = 1 \<and> map_of args1 ''repo'' = None);
                                      args2 = (if injectRepo
                                               then AList.update ''repo'' (AString (Repo (hd repoRoots))) args1
                                               else args1);
                                      modified = (\<not> hasOwner \<or> injectRepo)
                                  in
                                  if \<not> modified then next method request
                                  else
                                    (case json_Marshal args2 of
                                       None \<Rightarrow> next method request
                                     | Some newArgs \<Rightarrow>
                                         next method
                                           (CallTool (callReq\<lparr>Params := (Params callReq)\<lparr>Arguments := newArgs\<rparr>\<rparr>)))))))
      | _ \<Rightarrow> next method request)"

section \<open>Making owner and repo optional in tool schemas\<close>

text \<open>
  \<open>tool.Tool.InputSchema\<close> holds a \<open>*jsonschema.Schema\<close>, and the properties of a
  schema are pointers to schemas again. Whether the rewrite touches the caller's objects
  is a question about these pointers, so schemas live in a store: a list of schema
  objects, an address being an index, and allocation appending a cell. A nil pointer is
  \<open>None\<close>. Go has no dangling pointers; on an address outside the store the model
  leaves the tool as it is. The fields of \<open>jsonschema.Schema\<close>, \<open>mcp.Tool\<close> and
  \<open>inventory.ServerTool\<close> that the function does not name are the extension part of
  each record. The only map and the only slice the function writes to are the ones it
  has just made (\<open>newProps\<close>, \<open>newRequired\<close>, \<open>result\<close>), so maps and slices are
  values here.
\<close>

record Schema =
  Description :: string
  Required :: "string list"
  Properties :: "(string \<times> nat option) list option"

datatype InputSchema = InterfaceNil | SchemaPtr "nat option" | SchemaOther any

record Tool =
  InputSchema :: InputSchema

record ServerTool =
  Tool :: "Tool"

definition roots_suffix :: string where
  "roots_suffix = '' (optional when roots are configured)''"

text \<open>
  One of the two blocks \<open>if prop, exists := newProps[k]; exists && prop != nil\<close>: the
  property's schema is copied, the copy's description extended, and the copy's address
  stored in the new map.
\<close>

definition describeOptional ::
  "string \<Rightarrow> (string \<times> nat option) list \<times> 'a Schema_scheme list
     \<Rightarrow> (string \<times> nat option) list \<times> 'a Schema_scheme list" where
  "describeOptional k st =
     (case st of (newProps, h) \<Rightarrow>
        (case map_of newProps k of
           Some (Some p) \<Rightarrow>
             if p < length h
             then let propCopy = (h ! p)\<lparr>Description := Description (h ! p) @ roots_suffix\<rparr>
                  in (AList.update k (Some (length h)) newProps, h @ [propCopy])
             else (newProps, h)
         | _ \<Rightarrow> (newProps, h)))"

text \<open>The body of the loop, for one tool: the new \<open>result[i]\<close> and the store after it.\<close>

definition makeOptional ::
  "'a Schema_scheme list \<Rightarrow> ServerTool \<Rightarrow> ServerTool \<times> 'a Schema_scheme list" where
  "makeOptional h tool =
     (case InputSchema (Tool tool) of
        SchemaPtr (Some a) \<Rightarrow>
          if a < length h then
            let schema = h ! a;
                hasOwner = (''owner'' \<in> set (Required schema));
                hasRepo = (''repo'' \<in> set (Required schema))
            in
            if \<not> hasOwner \<and> \<not> hasRepo then (tool, h)
            else
              let newRequired = filter (\<lambda>r. r \<noteq> ''owner'' \<and> r \<noteq> ''repo'') (Required schema);
                  schemaCopy = schema\<lparr>Required := newRequired\<rparr>;
                  (schemaCopy', h') =
                    (case Properties schemaCopy of
                       None \<Rightarrow> (schemaCopy, h)
                     | Some props \<Rightarrow>
                         (case describeOptional ''repo'' (describeOptional ''owner'' (props, h)) of
                            (newProps, h1) \<Rightarrow> (schemaCopy\<lparr>Properties := Some newProps\<rparr>, h1)))
              in (tool\<lparr>Tool := (Tool tool)\<lparr>InputSchema := SchemaPtr (Some (length h'))\<rparr>\<rparr>,
                  h' @ [schemaCopy'])
          else (tool, h)
      | _ \<Rightarrow> (tool, h))"

fun MakeOwnerRepoOptional ::
  "'a Schema_scheme list \<Rightarrow> ServerTool list \<Rightarrow> ServerTool list \<times> 'a Schema_scheme list" where
  "MakeOwnerRepoOptional h [] = ([], h)"
| "MakeOwnerRepoOptional h (tool # tools) =
     (case makeOptional h tool of
        (tool', h') \<Rightarrow>
          (case MakeOwnerRepoOptional h' tools of
             (result, h'') \<Rightarrow> (tool' # result, h'')))"

section \<open>A stand-in for the library on plain ASCII input\<close>

text \<open>
  To run the model on concrete input the library parameters need values. These agree
  with Go on the inputs they are used on here: \<open>ascii_ToLower\<close> with
  \<open>strings.ToLower\<close> on ASCII strings, \<open>ascii_EqualFold\<close> with \<open>strings.EqualFold\<close>
  on ASCII strings, \<open>ascii_Quote\<close> with \<open>%q\<close> on printable ASCII without quote or
  backslash, and \<open>simple_url_Parse\<close> with \<open>url.Parse\<close> wherever it returns a URL:
  on \<open>scheme://host/path\<close> with a lowercase scheme and no user, port, query, fragment
  or escape. The stand-in ranks all map keys equal, which leaves them in the order in
  which the model lists them.
\<close>

definition ascii_lower_char :: "char \<Rightarrow> char" where
  "ascii_lower_char c =
     (case map_of (zip ''ABCDEFGHIJKLMNOPQRSTUVWXYZ'' ''abcdefghijklmnopqrstuvwxyz'') c of
        Some d \<Rightarrow> d | None \<Rightarrow> c)"

definition ascii_ToLower :: "string \<Rightarrow> string" where
  "ascii_ToLower s = map ascii_lower_char s"

definition ascii_EqualFold :: "string \<Rightarrow> string \<Rightarrow> bool" where
  "ascii_EqualFold s t = (ascii_ToLower s = ascii_ToLower t)"

definition ascii_Quote :: "string \<Rightarrow> string" where
  "ascii_Quote s = [CHR 0x22] @ s @ [CHR 0x22]"

definition name_char :: "char \<Rightarrow> bool" where
  "name_char c =
     (c \<in> set ''abcdefghijklmnopqrstuvwxyzABCDEFGHIJKLMNOPQRSTUVWXYZ0123456789.-_'')"

definition simple_url_Parse :: "string \<Rightarrow> URL option" where
  "simple_url_Parse s =
     (let scheme = takeWhile (\<lambda>c. c \<noteq> CHR '':'') s;
          rest = dropWhile (\<lambda>c. c \<noteq> CHR '':'') s
      in if scheme \<noteq> [] \<and> list_all (\<lambda>c. c \<in> set ''abcdefghijklmnopqrstuvwxyz'') scheme
            \<and> prefix ''://'' rest
         then let hp = drop 3 rest;
                  host = takeWhile (\<lambda>c. c \<noteq> CHR ''/'') hp;
                  path = dropWhile (\<lambda>c. c \<noteq> CHR ''/'') hp
              in if list_all name_char host \<and> list_all (\<lambda>c. name_char c \<or> c = CHR ''/'') path
                 then Some \<lparr>Scheme = scheme, Host = host, Path = path\<rparr>
                 else None
         else None)"

definition ascii_stdlib :: stdlib where
  "ascii_stdlib =
     \<lparr>url_Parse = simple_url_Parse, ToLower = ascii_ToLower, EqualFold = ascii_EqualFold,
      Quote = ascii_Quote, range_rank = (\<lambda>k. 0)\<rparr>"

section \<open>The enforcement rule in the words of the specification\<close>

text \<open>
  The rule as the specification states it, for an owner \<open>O\<close>, a repo \<open>R\<close> that may be
  absent and the resolved roots \<open>S\<close>: some root has owner \<open>lower(O)\<close> and (its repo is
  empty, or \<open>R\<close> is absent, or some root of that owner has repo \<open>lower(R)\<close>).
\<close>

definition spec_call_allowed :: "stdlib \<Rightarrow> string \<Rightarrow> string option \<Rightarrow> Root list \<Rightarrow> bool" where
  "spec_call_allowed L ownr R S =
     list_ex (\<lambda>root. Owner root = ToLower L ownr
        \<and> (Repo root = [] \<or> R = None
           \<or> list_ex (\<lambda>r. Owner r = ToLower L ownr \<and> Some (Repo r) = map_option (ToLower L) R) S)) S"

text \<open>
  The repo the source checks: a \<open>repo\<close> argument that is not a string, or is the empty
  string, is not checked at all, as if it were absent.
\<close>

fun checked_repo :: "any option \<Rightarrow> string option" where
  "checked_repo (Some (AString repo)) = (if repo = [] then None else Some repo)"
| "checked_repo v = None"

section \<open>Handlers and requests of the test suite\<close>

text \<open>
  The tests register a tool \<open>echo_args\<close> that answers with the arguments it received;
  here it answers with the decoded payload. \<open>accepting_handler\<close> is a handler that
  answers every call with the same successful result.
\<close>

definition echo_args :: MethodHandler where
  "echo_args method request =
     (case request of
        CallTool callReq \<Rightarrow>
          (case Arguments (Params callReq) of
             RawValue v \<Rightarrow> (OtherResult v, None)
           | _ \<Rightarrow> (NilResult, None))
      | _ \<Rightarrow> (NilResult, None))"

definition accepting_handler :: MethodHandler where
  "accepting_handler method request = (ToolResult \<lparr>Content = [''handled''], IsError = False\<rparr>, None)"

definition session_with_roots :: "string list \<Rightarrow> ServerSession" where
  "session_with_roots uris =
     \<lparr>ListRoots = Inr (Some \<lparr>Roots = map (\<lambda>uri. Some \<lparr>root_URI = uri, root_Name = []\<rparr>) uris\<rparr>)\<rparr>"

definition tool_call :: "string list \<Rightarrow> (string \<times> any) list \<Rightarrow> CallToolRequest" where
  "tool_call uris args =
     \<lparr>Session = Some (session_with_roots uris),
      Params = \<lparr>tool_Name = ''echo_args'', Arguments = RawValue (AObject args)\<rparr>\<rparr>"

section \<open>Facts about the string helpers\<close>


lemma SplitN_no_sep: "sep \<notin> set s \<Longrightarrow> SplitN s sep (Suc n) = [s]"
  by (cases n) simp_all

lemma dropWhile_no_sep: "sep \<notin> set a \<Longrightarrow> dropWhile (\<lambda>c. c \<noteq> sep) (a @ sep # rest) = sep # rest"
  by (induction a) auto

lemma takeWhile_no_sep: "sep \<notin> set a \<Longrightarrow> takeWhile (\<lambda>c. c \<noteq> sep) (a @ sep # rest) = a"
  by (induction a) auto

lemma SplitN_cut:
  "sep \<notin> set a \<Longrightarrow> SplitN (a @ sep # rest) sep (Suc (Suc n)) = a # SplitN rest sep (Suc n)"
  by (simp add: takeWhile_no_sep dropWhile_no_sep)

lemma TrimPrefix_cons: "TrimPrefix (p @ s) p = s"
  by (simp add: TrimPrefix_def)

lemma TrimSuffix_app: "TrimSuffix (s @ p) p = s"
  by (simp add: TrimSuffix_def suffix_def)

lemma TrimSuffix_slash_cases:
  "(TrimSuffix s ''/'' = s \<and> (s = [] \<or> last s \<noteq> CHR ''/'')) \<or> s = TrimSuffix s ''/'' @ ''/''"
proof (cases "suffix ''/'' s")
  case True
  then obtain zs where "s = zs @ ''/''" by (auto simp: suffix_def)
  then show ?thesis by (simp add: TrimSuffix_def suffix_def)
next
  case False
  have "s = [] \<or> last s \<noteq> CHR ''/''"
  proof (cases s rule: rev_cases)
    case Nil then show ?thesis by simp
  next
    case (snoc ys y)
    with False show ?thesis by (auto simp: suffix_def)
  qed
  with False show ?thesis by (simp add: TrimSuffix_def)
qed

lemma SplitN_two_segments:
  assumes "CHR ''/'' \<notin> set a" and "CHR ''/'' \<notin> set b" and "t = [] \<or> hd t = CHR ''/''"
  shows "\<exists>rest. SplitN (a @ CHR ''/'' # b @ t) CHR ''/'' 3 = a # b # rest"
proof (cases t)
  case Nil
  with assms show ?thesis
    by (simp add: numeral_3_eq_3 takeWhile_no_sep dropWhile_no_sep)
next
  case (Cons c t')
  with assms have c: "c = CHR ''/''" by simp
  have "SplitN (a @ CHR ''/'' # b @ CHR ''/'' # t') CHR ''/'' (Suc (Suc (Suc 0))) = a # b # [t']"
    using assms(1,2) by (simp add: SplitN_cut del: SplitN.simps(3))
  with Cons c show ?thesis by (simp add: numeral_3_eq_3)
qed

lemma SplitN_one_segment:
  "CHR ''/'' \<notin> set a \<Longrightarrow> SplitN a CHR ''/'' 3 = [a]"
  by (simp add: numeral_3_eq_3)

text \<open>Trimming the optional trailing slash of a path whose second segment ends in .git.\<close>

lemma trim_repo_path:
  assumes "t = [] \<or> hd t = CHR ''/''"
  shows "\<exists>t'. (t' = [] \<or> hd t' = CHR ''/'') \<and>
     TrimSuffix (a @ CHR ''/'' # b @ ''.git'' @ t) ''/'' = a @ CHR ''/'' # b @ ''.git'' @ t'"
proof -
  let ?s = "a @ CHR ''/'' # b @ ''.git'' @ t"
  from TrimSuffix_slash_cases [of ?s] show ?thesis
  proof
    assume "TrimSuffix ?s ''/'' = ?s \<and> (?s = [] \<or> last ?s \<noteq> CHR ''/'')"
    with assms show ?thesis by blast
  next
    assume eq: "?s = TrimSuffix ?s ''/'' @ ''/''"
    have l: "last ?s = CHR ''/''"
      by (subst eq) simp
    have "t \<noteq> []"
    proof
      assume "t = []"
      with l show False by simp
    qed
    with l have "last t = CHR ''/''" by simp
    with \<open>t \<noteq> []\<close> have t0: "t = butlast t @ ''/''"
      by (metis append_butlast_last_id)
    define t0 where "t0 = butlast t"
    have "?s = (a @ CHR ''/'' # b @ ''.git'' @ t0) @ ''/''"
      using t0 by (simp add: t0_def)
    then have "TrimSuffix ?s ''/'' = a @ CHR ''/'' # b @ ''.git'' @ t0"
      by (metis TrimSuffix_app)
    moreover have "t0 = [] \<or> hd t0 = CHR ''/''"
      using assms t0 \<open>t \<noteq> []\<close> unfolding t0_def by (cases t) auto
    ultimately show ?thesis by blast
  qed
qed


lemma ParseGitHubRootURI_path:
  assumes "url_Parse L uri = Some u"
    and "Scheme u \<in> {''https'', ''http'', ''git''}"
    and "EqualFold L (Host u) (if expectedHost = [] then ''github.com'' else expectedHost)"
    and "TrimSuffix (TrimPrefix (Path u) ''/'') ''/'' = path" and "path \<noteq> []"
    and "SplitN path CHR ''/'' 3 = segments"
  shows "ParseGitHubRootURI L uri expectedHost =
     (if length segments = 0 \<or> segments ! 0 = [] then Inl (ErrNoPath uri)
      else if length segments \<ge> 2 \<and> segments ! 1 \<noteq> []
           then Inr (ToLower L (segments ! 0), ToLower L (TrimSuffix (segments ! 1) ''.git''))
           else Inr (ToLower L (segments ! 0), []))"
  using assms by (simp add: ParseGitHubRootURI_def Let_def)

lemma ParseGitHubRootURI_repo_level:
  assumes "url_Parse L uri = Some u"
    and "Scheme u \<in> {''https'', ''http'', ''git''}"
    and "EqualFold L (Host u) (if expectedHost = [] then ''github.com'' else expectedHost)"
    and "ownr \<noteq> []" and "CHR ''/'' \<notin> set ownr" and "CHR ''/'' \<notin> set rp"
    and "rest = [] \<or> hd rest = CHR ''/''"
    and "Path u = ''/'' @ ownr @ ''/'' @ rp @ ''.git'' @ rest"
  shows "ParseGitHubRootURI L uri expectedHost = Inr (ToLower L ownr, ToLower L rp)"
proof -
  have p1: "TrimPrefix (Path u) ''/'' = ownr @ CHR ''/'' # rp @ ''.git'' @ rest"
    using assms(8) by (simp add: TrimPrefix_def)
  obtain t' where t': "t' = [] \<or> hd t' = CHR ''/''"
    and p2: "TrimSuffix (TrimPrefix (Path u) ''/'') ''/'' = ownr @ CHR ''/'' # rp @ ''.git'' @ t'"
    using trim_repo_path [OF assms(7), of ownr rp] p1 by auto
  have "CHR ''/'' \<notin> set (rp @ ''.git'')" using assms(6) by simp
  then obtain more where
    segs: "SplitN (ownr @ CHR ''/'' # (rp @ ''.git'') @ t') CHR ''/'' 3 = ownr # (rp @ ''.git'') # more"
    using SplitN_two_segments [OF assms(5) _ t'] by blast
  have ne: "ownr @ CHR ''/'' # rp @ ''.git'' @ t' \<noteq> []" by simp
  have segs': "SplitN (ownr @ CHR ''/'' # rp @ ''.git'' @ t') CHR ''/'' 3 = ownr # (rp @ ''.git'') # more"
    using segs by simp
  show ?thesis
    by (simp add: ParseGitHubRootURI_path [OF assms(1,2,3) p2 ne segs'] assms(4) TrimSuffix_app)
qed

lemma ParseGitHubRootURI_org_level:
  assumes "url_Parse L uri = Some u"
    and "Scheme u \<in> {''https'', ''http'', ''git''}"
    and "EqualFold L (Host u) (if expectedHost = [] then ''github.com'' else expectedHost)"
    and "ownr \<noteq> []" and "CHR ''/'' \<notin> set ownr"
    and "Path u = ''/'' @ ownr"
  shows "ParseGitHubRootURI L uri expectedHost = Inr (ToLower L ownr, [])"
proof -
  have p1: "TrimPrefix (Path u) ''/'' = ownr"
    using assms(6) by (simp add: TrimPrefix_def)
  have "\<not> suffix ''/'' ownr"
    using assms(5) by (auto simp: suffix_def)
  then have p2: "TrimSuffix (TrimPrefix (Path u) ''/'') ''/'' = ownr"
    using p1 by (simp add: TrimSuffix_def)
  show ?thesis
    by (simp add: ParseGitHubRootURI_path [OF assms(1,2,3) p2 assms(4) SplitN_one_segment [OF assms(5)]] assms(4))
qed

lemma ParseGitHubRootURI_success_only:
  assumes "url_Parse L uri = Some u"
    and "ParseGitHubRootURI L uri expectedHost = Inr res"
  shows "Scheme u \<in> {''https'', ''http'', ''git''}
       \<and> EqualFold L (Host u) (if expectedHost = [] then ''github.com'' else expectedHost)"
  using assms by (auto simp: ParseGitHubRootURI_def Let_def split: if_splits)

lemma ParseGitHubRootURI_rejects:
  assumes "url_Parse L uri = Some u"
    and "Scheme u \<notin> {''https'', ''http'', ''git''}
       \<or> \<not> EqualFold L (Host u) (if expectedHost = [] then ''github.com'' else expectedHost)
       \<or> Path u = []"
  shows "\<exists>e. ParseGitHubRootURI L uri expectedHost = Inl e"
proof (cases "Scheme u \<in> {''https'', ''http'', ''git''}")
  case scheme: True
  show ?thesis
  proof (cases "EqualFold L (Host u) (if expectedHost = [] then ''github.com'' else expectedHost)")
    case True
    with scheme assms(2) have "Path u = []" by blast
    then have "TrimSuffix (TrimPrefix (Path u) ''/'') ''/'' = []"
      by (simp add: TrimPrefix_def TrimSuffix_def)
    with True scheme assms(1) show ?thesis
      by (simp add: ParseGitHubRootURI_def Let_def)
  next
    case False
    with scheme assms(1) show ?thesis
      by (simp add: ParseGitHubRootURI_def Let_def)
  qed
next
  case False
  with assms(1) show ?thesis
    by (simp add: ParseGitHubRootURI_def Let_def)
qed


lemma GitHubRoot_success_facts:
  assumes "ParseGitHubRootURI_GitHubRoot L uri expectedHost = Inr (ownr, rp)"
  shows "\<exists>u segments. url_Parse L uri = Some u
     \<and> Scheme u \<in> {''https'', ''http'', ''git''}
     \<and> EqualFold L (Host u) (if expectedHost = [] then ''github.com'' else expectedHost)
     \<and> TrimSuffix (TrimPrefix (Path u) ''/'') ''/'' \<noteq> []
     \<and> SplitN (TrimSuffix (TrimPrefix (Path u) ''/'') ''/'') CHR ''/'' 3 = segments
     \<and> length segments \<ge> 2 \<and> segments ! 0 \<noteq> [] \<and> segments ! 1 \<noteq> []
     \<and> ownr = segments ! 0 \<and> rp = TrimSuffix (segments ! 1) ''.git''"
proof (cases "url_Parse L uri")
  case None
  with assms show ?thesis by (simp add: ParseGitHubRootURI_GitHubRoot_def)
next
  case (Some u)
  have s: "Scheme u \<in> {''https'', ''http'', ''git''}"
  proof (rule ccontr)
    assume "\<not> ?thesis"
    with Some have "\<exists>e. ParseGitHubRootURI_GitHubRoot L uri expectedHost = Inl e"
      by (simp add: ParseGitHubRootURI_GitHubRoot_def Let_def)
    with assms show False by auto
  qed
  have h: "EqualFold L (Host u) (if expectedHost = [] then ''github.com'' else expectedHost)"
  proof (rule ccontr)
    assume "\<not> ?thesis"
    with Some s have "\<exists>e. ParseGitHubRootURI_GitHubRoot L uri expectedHost = Inl e"
      by (simp add: ParseGitHubRootURI_GitHubRoot_def Let_def)
    with assms show False by auto
  qed
  define path where "path = TrimSuffix (TrimPrefix (Path u) ''/'') ''/''"
  define segments where "segments = SplitN path CHR ''/'' 3"
  have eq: "ParseGitHubRootURI_GitHubRoot L uri expectedHost =
     (if path = [] then Inl (ErrNoPathExpected uri)
      else if length segments < 2 \<or> segments ! 0 = [] \<or> segments ! 1 = []
           then Inl (ErrNoOwnerRepo uri)
           else if TrimSuffix (segments ! 1) ''.git'' = [] then Inl (ErrEmptyRepo uri)
                else Inr (segments ! 0, TrimSuffix (segments ! 1) ''.git''))"
    using Some s h by (simp add: ParseGitHubRootURI_GitHubRoot_def Let_def path_def segments_def)
  from assms have "path \<noteq> [] \<and> \<not> (length segments < 2 \<or> segments ! 0 = [] \<or> segments ! 1 = [])
      \<and> ownr = segments ! 0 \<and> rp = TrimSuffix (segments ! 1) ''.git''"
    unfolding eq by (simp split: if_splits)
  with Some s h show ?thesis
    unfolding path_def segments_def by (intro exI [of _ u] exI [of _ segments]) (simp add: segments_def path_def)
qed

lemma variants_related:
  "(ParseGitHubRootURI_GitHubRoot L uri expectedHost = Inr (ownr, rp)
      \<longrightarrow> ParseGitHubRootURI L uri expectedHost = Inr (ToLower L ownr, ToLower L rp))
   \<and> (ParseGitHubRootURI L uri expectedHost = Inl e
      \<longrightarrow> (\<exists>e'. ParseGitHubRootURI_GitHubRoot L uri expectedHost = Inl e'))"
proof -
  have 1: "ParseGitHubRootURI L uri expectedHost = Inr (ToLower L o', ToLower L r')"
    if a: "ParseGitHubRootURI_GitHubRoot L uri expectedHost = Inr (o', r')" for o' r'
  proof -
    from GitHubRoot_success_facts [OF a] obtain u segments where
      f: "url_Parse L uri = Some u" "Scheme u \<in> {''https'', ''http'', ''git''}"
         "EqualFold L (Host u) (if expectedHost = [] then ''github.com'' else expectedHost)"
         "TrimSuffix (TrimPrefix (Path u) ''/'') ''/'' \<noteq> []"
         "SplitN (TrimSuffix (TrimPrefix (Path u) ''/'') ''/'') CHR ''/'' 3 = segments"
         "length segments \<ge> 2" "segments ! 0 \<noteq> []" "segments ! 1 \<noteq> []"
         "o' = segments ! 0" "r' = TrimSuffix (segments ! 1) ''.git''"
      by blast
    from f(6) have "segments \<noteq> []" by auto
    then show ?thesis
      using f(6-10) by (simp add: ParseGitHubRootURI_path [OF f(1,2,3) refl f(4,5)])
  qed
  have 2: "\<exists>e'. ParseGitHubRootURI_GitHubRoot L uri expectedHost = Inl e'"
    if b: "ParseGitHubRootURI L uri expectedHost = Inl e"
  proof (cases "ParseGitHubRootURI_GitHubRoot L uri expectedHost")
    case (Inl e') then show ?thesis by blast
  next
    case (Inr p)
    obtain o' r' where "p = (o', r')" by (cases p)
    with Inr 1 b show ?thesis by simp
  qed
  from 1 2 show ?thesis by blast
qed


lemma trim_two_segment_path:
  assumes "t = [] \<or> hd t = CHR ''/''" and "b \<noteq> []" and "CHR ''/'' \<notin> set b"
  shows "\<exists>t'. (t' = [] \<or> hd t' = CHR ''/'') \<and>
     TrimSuffix (a @ CHR ''/'' # b @ t) ''/'' = a @ CHR ''/'' # b @ t'"
proof -
  let ?s = "a @ CHR ''/'' # b @ t"
  from TrimSuffix_slash_cases [of ?s] show ?thesis
  proof
    assume "TrimSuffix ?s ''/'' = ?s \<and> (?s = [] \<or> last ?s \<noteq> CHR ''/'')"
    with assms show ?thesis by blast
  next
    assume eq: "?s = TrimSuffix ?s ''/'' @ ''/''"
    have l: "last ?s = CHR ''/''"
      by (subst eq) simp
    have "t \<noteq> []"
    proof
      assume "t = []"
      with l assms(2) have "last b = CHR ''/''" by simp
      with assms(2,3) show False using last_in_set by metis
    qed
    with l have "last t = CHR ''/''" by simp
    with \<open>t \<noteq> []\<close> have t0: "t = butlast t @ ''/''"
      by (metis append_butlast_last_id)
    define t0 where "t0 = butlast t"
    have "?s = (a @ CHR ''/'' # b @ t0) @ ''/''"
      using t0 by (simp add: t0_def)
    then have "TrimSuffix ?s ''/'' = a @ CHR ''/'' # b @ t0"
      by (metis TrimSuffix_app)
    moreover have "t0 = [] \<or> hd t0 = CHR ''/''"
      using assms(1) t0 \<open>t \<noteq> []\<close> unfolding t0_def by (cases t) auto
    ultimately show ?thesis by blast
  qed
qed

lemma ParseGitHubRootURI_two_segments:
  assumes "url_Parse L uri = Some u"
    and "Scheme u \<in> {''https'', ''http'', ''git''}"
    and "EqualFold L (Host u) (if expectedHost = [] then ''github.com'' else expectedHost)"
    and "ownr \<noteq> []" and "CHR ''/'' \<notin> set ownr" and "seg \<noteq> []" and "CHR ''/'' \<notin> set seg"
    and "rest = [] \<or> hd rest = CHR ''/''"
    and "Path u = ''/'' @ ownr @ ''/'' @ seg @ rest"
  shows "ParseGitHubRootURI L uri expectedHost
           = Inr (ToLower L ownr, ToLower L (TrimSuffix seg ''.git''))"
proof -
  have p1: "TrimPrefix (Path u) ''/'' = ownr @ CHR ''/'' # seg @ rest"
    using assms(9) by (simp add: TrimPrefix_def)
  obtain t' where t': "t' = [] \<or> hd t' = CHR ''/''"
    and p2: "TrimSuffix (TrimPrefix (Path u) ''/'') ''/'' = ownr @ CHR ''/'' # seg @ t'"
    using trim_two_segment_path [OF assms(8,6,7), of ownr] p1 by auto
  obtain more where
    segs: "SplitN (ownr @ CHR ''/'' # seg @ t') CHR ''/'' 3 = ownr # seg # more"
    using SplitN_two_segments [OF assms(5,7) t'] by blast
  have ne: "ownr @ CHR ''/'' # seg @ t' \<noteq> []" by simp
  show ?thesis
    by (simp add: ParseGitHubRootURI_path [OF assms(1,2,3) p2 ne segs] assms(4,6))
qed

lemma ParseGitHubRootURI_unparsable:
  "url_Parse L uri = None \<Longrightarrow> ParseGitHubRootURI L uri expectedHost = Inl (ErrInvalidURI uri)"
  by (simp add: ParseGitHubRootURI_def)

lemma ParseGitHubRootURI_success_parsed:
  assumes "ParseGitHubRootURI L uri expectedHost = Inr res"
  shows "\<exists>u. url_Parse L uri = Some u \<and> Scheme u \<in> {''https'', ''http'', ''git''}
       \<and> EqualFold L (Host u) (if expectedHost = [] then ''github.com'' else expectedHost)"
proof (cases "url_Parse L uri")
  case None
  with assms show ?thesis by (simp add: ParseGitHubRootURI_unparsable)
next
  case (Some u)
  with ParseGitHubRootURI_success_only [OF Some assms] show ?thesis by blast
qed

lemma GitHubRoot_path:
  assumes "url_Parse L uri = Some u"
    and "Scheme u \<in> {''https'', ''http'', ''git''}"
    and "EqualFold L (Host u) (if expectedHost = [] then ''github.com'' else expectedHost)"
    and "TrimSuffix (TrimPrefix (Path u) ''/'') ''/'' = path" and "path \<noteq> []"
    and "SplitN path CHR ''/'' 3 = segments"
  shows "ParseGitHubRootURI_GitHubRoot L uri expectedHost =
     (if length segments < 2 \<or> segments ! 0 = [] \<or> segments ! 1 = []
      then Inl (ErrNoOwnerRepo uri)
      else if TrimSuffix (segments ! 1) ''.git'' = [] then Inl (ErrEmptyRepo uri)
           else Inr (segments ! 0, TrimSuffix (segments ! 1) ''.git''))"
  using assms by (simp add: ParseGitHubRootURI_GitHubRoot_def Let_def)

lemma GitHubRoot_org_level:
  assumes "url_Parse L uri = Some u"
    and "Scheme u \<in> {''https'', ''http'', ''git''}"
    and "EqualFold L (Host u) (if expectedHost = [] then ''github.com'' else expectedHost)"
    and "ownr \<noteq> []" and "CHR ''/'' \<notin> set ownr"
    and "Path u = ''/'' @ ownr"
  shows "ParseGitHubRootURI_GitHubRoot L uri expectedHost = Inl (ErrNoOwnerRepo uri)"
proof -
  have p1: "TrimPrefix (Path u) ''/'' = ownr"
    using assms(6) by (simp add: TrimPrefix_def)
  have "\<not> suffix ''/'' ownr"
    using assms(5) by (auto simp: suffix_def)
  then have p2: "TrimSuffix (TrimPrefix (Path u) ''/'') ''/'' = ownr"
    using p1 by (simp add: TrimSuffix_def)
  show ?thesis
    by (simp add: GitHubRoot_path [OF assms(1,2,3) p2 assms(4) SplitN_one_segment [OF assms(5)]])
qed

lemma GitHubRoot_error_converse:
  assumes "ParseGitHubRootURI_GitHubRoot L uri expectedHost = Inl e'"
  shows "(\<exists>e. ParseGitHubRootURI L uri expectedHost = Inl e)
       \<or> (\<exists>ownr. ParseGitHubRootURI L uri expectedHost = Inr (ownr, [])
              \<or> ParseGitHubRootURI L uri expectedHost = Inr (ownr, ToLower L []))"
proof (cases "url_Parse L uri")
  case None
  then show ?thesis by (simp add: ParseGitHubRootURI_unparsable)
next
  case (Some u)
  show ?thesis
  proof (cases "Scheme u \<in> {''https'', ''http'', ''git''}
       \<and> EqualFold L (Host u) (if expectedHost = [] then ''github.com'' else expectedHost)")
    case False
    then show ?thesis using ParseGitHubRootURI_rejects [OF Some] by blast
  next
    case True
    then have s: "Scheme u \<in> {''https'', ''http'', ''git''}"
      and h: "EqualFold L (Host u) (if expectedHost = [] then ''github.com'' else expectedHost)"
      by blast+
    define path where "path = TrimSuffix (TrimPrefix (Path u) ''/'') ''/''"
    define segments where "segments = SplitN path CHR ''/'' 3"
    show ?thesis
    proof (cases "path = []")
      case True
      with Some s h show ?thesis
        by (simp add: ParseGitHubRootURI_def Let_def path_def)
    next
      case False
      note r = ParseGitHubRootURI_path [OF Some s h path_def [symmetric] False segments_def [symmetric]]
      note g = GitHubRoot_path [OF Some s h path_def [symmetric] False segments_def [symmetric]]
      from assms g have
        "length segments < 2 \<or> segments ! 0 = [] \<or> segments ! 1 = []
          \<or> TrimSuffix (segments ! 1) ''.git'' = []"
        by (auto split: if_splits)
      then show ?thesis unfolding r by auto
    qed
  qed
qed

lemma GitHubRoot_success_only:
  assumes "ParseGitHubRootURI_GitHubRoot L uri expectedHost = Inr res"
  shows "\<exists>u. url_Parse L uri = Some u \<and> Scheme u \<in> {''https'', ''http'', ''git''}
       \<and> EqualFold L (Host u) (if expectedHost = [] then ''github.com'' else expectedHost)"
proof -
  obtain a b where "res = (a, b)" by (cases res)
  with GitHubRoot_success_facts [of L uri expectedHost a b] assms show ?thesis by blast
qed

lemma GitHubRoot_rejects:
  assumes "url_Parse L uri = None
     \<or> (url_Parse L uri = Some u
         \<and> (Scheme u \<notin> {''https'', ''http'', ''git''}
            \<or> \<not> EqualFold L (Host u) (if expectedHost = [] then ''github.com'' else expectedHost)
            \<or> Path u = []))"
  shows "\<exists>e. ParseGitHubRootURI_GitHubRoot L uri expectedHost = Inl e"
proof -
  from assms have "\<exists>e. ParseGitHubRootURI L uri expectedHost = Inl e"
    using ParseGitHubRootURI_unparsable ParseGitHubRootURI_rejects by blast
  then show ?thesis using variants_related by blast
qed

section \<open>The root parser\<close>


text \<open>
  C4. RootParser: a parse succeeds only when the URI parses as a URL whose scheme is
  https, http or git and whose host equals the expected host up to case (github.com when
  none is given). On such a URL a path /Owner/Repo.git, with or without further segments,
  gives (lower(Owner), lower(Repo)); more generally a path /Owner/Segment[/...] gives
  lower(Owner) and the lowercased segment without a trailing .git; a path /Owner gives
  (lower(Owner), ""). A URI that does not parse, another scheme, another host or an
  empty path is an error. The clauses on success and on rejection hold of both
  definitions of the parser; the clauses on the result are those of the definition
  beside Root, which the middlewares call.
\<close>

theorem ParseGitHubRootURI_root_parser:
  "(\<forall>res. ParseGitHubRootURI L uri expectedHost = Inr res
           \<or> ParseGitHubRootURI_GitHubRoot L uri expectedHost = Inr res \<longrightarrow>
        (\<exists>p. url_Parse L uri = Some p \<and> Scheme p \<in> {''https'', ''http'', ''git''}
           \<and> EqualFold L (Host p) (if expectedHost = [] then ''github.com'' else expectedHost)))
   \<and> (url_Parse L uri = Some u \<and> Scheme u \<in> {''https'', ''http'', ''git''}
        \<and> EqualFold L (Host u) (if expectedHost = [] then ''github.com'' else expectedHost)
        \<and> ownr \<noteq> [] \<and> CHR ''/'' \<notin> set ownr \<and> CHR ''/'' \<notin> set rp
        \<and> (rest = [] \<or> hd rest = CHR ''/'')
        \<and> Path u = ''/'' @ ownr @ ''/'' @ rp @ ''.git'' @ rest
       \<longrightarrow> ParseGitHubRootURI L uri expectedHost = Inr (ToLower L ownr, ToLower L rp))
   \<and> (url_Parse L uri = Some u \<and> Scheme u \<in> {''https'', ''http'', ''git''}
        \<and> EqualFold L (Host u) (if expectedHost = [] then ''github.com'' else expectedHost)
        \<and> ownr \<noteq> [] \<and> CHR ''/'' \<notin> set ownr \<and> seg \<noteq> [] \<and> CHR ''/'' \<notin> set seg
        \<and> (rest = [] \<or> hd rest = CHR ''/'')
        \<and> Path u = ''/'' @ ownr @ ''/'' @ seg @ rest
       \<longrightarrow> ParseGitHubRootURI L uri expectedHost
             = Inr (ToLower L ownr, ToLower L (TrimSuffix seg ''.git'')))
   \<and> (url_Parse L uri = Some u \<and> Scheme u \<in> {''https'', ''http'', ''git''}
        \<and> EqualFold L (Host u) (if expectedHost = [] then ''github.com'' else expectedHost)
        \<and> ownr \<noteq> [] \<and> CHR ''/'' \<notin> set ownr
        \<and> Path u = ''/'' @ ownr
       \<longrightarrow> ParseGitHubRootURI L uri expectedHost = Inr (ToLower L ownr, []))
   \<and> (url_Parse L uri = None
        \<or> (url_Parse L uri = Some u
            \<and> (Scheme u \<notin> {''https'', ''http'', ''git''}
               \<or> \<not> EqualFold L (Host u) (if expectedHost = [] then ''github.com'' else expectedHost)
               \<or> Path u = []))
       \<longrightarrow> (\<exists>e. ParseGitHubRootURI L uri expectedHost = Inl e)
           \<and> (\<exists>e. ParseGitHubRootURI_GitHubRoot L uri expectedHost = Inl e))"
proof (intro conjI allI impI)
  fix res
  assume "ParseGitHubRootURI L uri expectedHost = Inr res
           \<or> ParseGitHubRootURI_GitHubRoot L uri expectedHost = Inr res"
  then show "\<exists>p. url_Parse L uri = Some p \<and> Scheme p \<in> {''https'', ''http'', ''git''}
           \<and> EqualFold L (Host p) (if expectedHost = [] then ''github.com'' else expectedHost)"
    using ParseGitHubRootURI_success_parsed GitHubRoot_success_only by blast
next
  assume "url_Parse L uri = Some u \<and> Scheme u \<in> {''https'', ''http'', ''git''}
        \<and> EqualFold L (Host u) (if expectedHost = [] then ''github.com'' else expectedHost)
        \<and> ownr \<noteq> [] \<and> CHR ''/'' \<notin> set ownr \<and> CHR ''/'' \<notin> set rp
        \<and> (rest = [] \<or> hd rest = CHR ''/'')
        \<and> Path u = ''/'' @ ownr @ ''/'' @ rp @ ''.git'' @ rest"
  then show "ParseGitHubRootURI L uri expectedHost = Inr (ToLower L ownr, ToLower L rp)"
    using ParseGitHubRootURI_repo_level by blast
next
  assume "url_Parse L uri = Some u \<and> Scheme u \<in> {''https'', ''http'', ''git''}
        \<and> EqualFold L (Host u) (if expectedHost = [] then ''github.com'' else expectedHost)
        \<and> ownr \<noteq> [] \<and> CHR ''/'' \<notin> set ownr \<and> seg \<noteq> [] \<and> CHR ''/'' \<notin> set seg
        \<and> (rest = [] \<or> hd rest = CHR ''/'')
        \<and> Path u = ''/'' @ ownr @ ''/'' @ seg @ rest"
  then show "ParseGitHubRootURI L uri expectedHost
             = Inr (ToLower L ownr, ToLower L (TrimSuffix seg ''.git''))"
    using ParseGitHubRootURI_two_segments by blast
next
  assume "url_Parse L uri = Some u \<and> Scheme u \<in> {''https'', ''http'', ''git''}
        \<and> EqualFold L (Host u) (if expectedHost = [] then ''github.com'' else expectedHost)
        \<and> ownr \<noteq> [] \<and> CHR ''/'' \<notin> set ownr
        \<and> Path u = ''/'' @ ownr"
  then show "ParseGitHubRootURI L uri expectedHost = Inr (ToLower L ownr, [])"
    using ParseGitHubRootURI_org_level by blast
next
  assume a: "url_Parse L uri = None
        \<or> (url_Parse L uri = Some u
            \<and> (Scheme u \<notin> {''https'', ''http'', ''git''}
               \<or> \<not> EqualFold L (Host u) (if expectedHost = [] then ''github.com'' else expectedHost)
               \<or> Path u = []))"
  then show "\<exists>e. ParseGitHubRootURI L uri expectedHost = Inl e"
    using ParseGitHubRootURI_unparsable ParseGitHubRootURI_rejects by blast
  from a show "\<exists>e. ParseGitHubRootURI_GitHubRoot L uri expectedHost = Inl e"
    by (rule GitHubRoot_rejects)
qed

theorem ParseGitHubRootURI_root_parser_witness:
  "url_Parse ascii_stdlib ''https://GitHub.com/OctoCat/My-Repo.git/tree/main''
     = Some \<lparr>Scheme = ''https'', Host = ''GitHub.com'', Path = ''/OctoCat/My-Repo.git/tree/main''\<rparr>
   \<and> ParseGitHubRootURI ascii_stdlib ''https://GitHub.com/OctoCat/My-Repo.git/tree/main'' []
     = Inr (''octocat'', ''my-repo'')
   \<and> url_Parse ascii_stdlib ''http://github.com/octocat/Hello-World/''
     = Some \<lparr>Scheme = ''http'', Host = ''github.com'', Path = ''/octocat/Hello-World/''\<rparr>
   \<and> ParseGitHubRootURI ascii_stdlib ''http://github.com/octocat/Hello-World/'' ''github.com''
     = Inr (''octocat'', ''hello-world'')
   \<and> url_Parse ascii_stdlib ''git://github.com/MyOrg''
     = Some \<lparr>Scheme = ''git'', Host = ''github.com'', Path = ''/MyOrg''\<rparr>
   \<and> ParseGitHubRootURI ascii_stdlib ''git://github.com/MyOrg'' ''github.com'' = Inr (''myorg'', [])
   \<and> url_Parse ascii_stdlib ''ftp://github.com/octocat/Hello-World''
     = Some \<lparr>Scheme = ''ftp'', Host = ''github.com'', Path = ''/octocat/Hello-World''\<rparr>
   \<and> (\<exists>e. ParseGitHubRootURI ascii_stdlib ''ftp://github.com/octocat/Hello-World'' ''github.com'' = Inl e)
   \<and> url_Parse ascii_stdlib ''://not-a-url'' = None
   \<and> (\<exists>e. ParseGitHubRootURI ascii_stdlib ''://not-a-url'' ''github.com'' = Inl e)
   \<and> (\<exists>p. url_Parse ascii_stdlib ''git://github.com/MyOrg'' = Some p
          \<and> Scheme p \<in> {''https'', ''http'', ''git''} \<and> EqualFold ascii_stdlib (Host p) ''github.com'')"
proof -
  have p1: "url_Parse ascii_stdlib ''https://GitHub.com/OctoCat/My-Repo.git/tree/main''
     = Some \<lparr>Scheme = ''https'', Host = ''GitHub.com'', Path = ''/OctoCat/My-Repo.git/tree/main''\<rparr>"
    by code_simp
  have p2: "url_Parse ascii_stdlib ''git://github.com/MyOrg''
     = Some \<lparr>Scheme = ''git'', Host = ''github.com'', Path = ''/MyOrg''\<rparr>"
    by code_simp
  have p3: "url_Parse ascii_stdlib ''ftp://github.com/octocat/Hello-World''
     = Some \<lparr>Scheme = ''ftp'', Host = ''github.com'', Path = ''/octocat/Hello-World''\<rparr>"
    by code_simp
  have p4: "url_Parse ascii_stdlib ''://not-a-url'' = None"
    by code_simp
  have p5: "url_Parse ascii_stdlib ''http://github.com/octocat/Hello-World/''
     = Some \<lparr>Scheme = ''http'', Host = ''github.com'', Path = ''/octocat/Hello-World/''\<rparr>"
    by code_simp
  have f1: "EqualFold ascii_stdlib ''GitHub.com'' ''github.com''" by code_simp
  have f2: "EqualFold ascii_stdlib ''github.com'' ''github.com''" by code_simp
  have l1: "ToLower ascii_stdlib ''OctoCat'' = ''octocat''" by code_simp
  have l2: "ToLower ascii_stdlib ''My-Repo'' = ''my-repo''" by code_simp
  have l3: "ToLower ascii_stdlib ''MyOrg'' = ''myorg''" by code_simp
  have l4: "ToLower ascii_stdlib ''octocat'' = ''octocat''" by code_simp
  have l5: "ToLower ascii_stdlib (TrimSuffix ''Hello-World'' ''.git'') = ''hello-world''" by code_simp
  have r1: "ParseGitHubRootURI ascii_stdlib ''https://GitHub.com/OctoCat/My-Repo.git/tree/main'' []
     = Inr (''octocat'', ''my-repo'')"
    using ParseGitHubRootURI_root_parser [where L = ascii_stdlib
        and uri = "''https://GitHub.com/OctoCat/My-Repo.git/tree/main''"
        and u = "\<lparr>Scheme = ''https'', Host = ''GitHub.com'', Path = ''/OctoCat/My-Repo.git/tree/main''\<rparr>"
        and expectedHost = "[]" and ownr = "''OctoCat''"
        and rp = "''My-Repo''" and rest = "''/tree/main''"] p1 f1 l1 l2
    by simp
  have r5: "ParseGitHubRootURI ascii_stdlib ''http://github.com/octocat/Hello-World/'' ''github.com''
     = Inr (''octocat'', ''hello-world'')"
    using ParseGitHubRootURI_root_parser [where L = ascii_stdlib
        and uri = "''http://github.com/octocat/Hello-World/''"
        and u = "\<lparr>Scheme = ''http'', Host = ''github.com'', Path = ''/octocat/Hello-World/''\<rparr>"
        and expectedHost = "''github.com''" and ownr = "''octocat''"
        and seg = "''Hello-World''" and rest = "''/''"] p5 f2 l4 l5
    by simp
  have r2: "ParseGitHubRootURI ascii_stdlib ''git://github.com/MyOrg'' ''github.com'' = Inr (''myorg'', [])"
    using ParseGitHubRootURI_root_parser [where L = ascii_stdlib
        and uri = "''git://github.com/MyOrg''"
        and u = "\<lparr>Scheme = ''git'', Host = ''github.com'', Path = ''/MyOrg''\<rparr>"
        and expectedHost = "''github.com''" and ownr = "''MyOrg''"] p2 f2 l3
    by simp
  have r3: "\<exists>e. ParseGitHubRootURI ascii_stdlib ''ftp://github.com/octocat/Hello-World'' ''github.com'' = Inl e"
    using ParseGitHubRootURI_root_parser [where L = ascii_stdlib
        and uri = "''ftp://github.com/octocat/Hello-World''"
        and u = "\<lparr>Scheme = ''ftp'', Host = ''github.com'', Path = ''/octocat/Hello-World''\<rparr>"
        and expectedHost = "''github.com''"] p3
    by simp
  have r4: "\<exists>e. ParseGitHubRootURI ascii_stdlib ''://not-a-url'' ''github.com'' = Inl e"
    using ParseGitHubRootURI_root_parser [where L = ascii_stdlib
        and uri = "''://not-a-url''" and expectedHost = "''github.com''"] p4
    by simp
  have r6: "\<exists>p. url_Parse ascii_stdlib ''git://github.com/MyOrg'' = Some p
          \<and> Scheme p \<in> {''https'', ''http'', ''git''} \<and> EqualFold ascii_stdlib (Host p) ''github.com''"
    using ParseGitHubRootURI_root_parser [where L = ascii_stdlib
        and uri = "''git://github.com/MyOrg''" and expectedHost = "''github.com''"] r2
    by simp
  from p1 p2 p3 p4 p5 r1 r2 r3 r4 r5 r6 show ?thesis by blast
qed

text \<open>
  C8. The two definitions of ParseGitHubRootURI do not compute the same function: the one
  beside Root accepts an organisation-level URI and lowercases, the one beside GitHubRoot
  rejects the first and keeps the case.
\<close>

theorem ParseGitHubRootURI_variants_differ:
  "ParseGitHubRootURI ascii_stdlib ''https://github.com/octocat'' ''github.com''
     = Inr (''octocat'', [])
   \<and> ParseGitHubRootURI_GitHubRoot ascii_stdlib ''https://github.com/octocat'' ''github.com''
     = Inl (ErrNoOwnerRepo ''https://github.com/octocat'')
   \<and> ParseGitHubRootURI ascii_stdlib ''https://github.com/octocat/Hello-World'' ''github.com''
     = Inr (''octocat'', ''hello-world'')
   \<and> ParseGitHubRootURI_GitHubRoot ascii_stdlib ''https://github.com/octocat/Hello-World'' ''github.com''
     = Inr (''octocat'', ''Hello-World'')"
  by code_simp

text \<open>
  C8, amended. Whenever the definition beside GitHubRoot returns (owner, repo), the one
  beside Root returns (lower(owner), lower(repo)). Whenever the one beside Root returns
  an error, so does the one beside GitHubRoot. On a URL with an accepted scheme and host
  whose path is a single segment /Owner, the one beside Root returns (lower(Owner), "")
  and the one beside GitHubRoot returns an error. And wherever the one beside GitHubRoot
  returns an error, the one beside Root returns an error or a pair whose repo is "" or
  lower("").
\<close>

theorem ParseGitHubRootURI_variants_related:
  "(ParseGitHubRootURI_GitHubRoot L uri expectedHost = Inr (ownr, rp)
      \<longrightarrow> ParseGitHubRootURI L uri expectedHost = Inr (ToLower L ownr, ToLower L rp))
   \<and> (ParseGitHubRootURI L uri expectedHost = Inl e
      \<longrightarrow> (\<exists>e'. ParseGitHubRootURI_GitHubRoot L uri expectedHost = Inl e'))
   \<and> (url_Parse L uri = Some u \<and> Scheme u \<in> {''https'', ''http'', ''git''}
        \<and> EqualFold L (Host u) (if expectedHost = [] then ''github.com'' else expectedHost)
        \<and> org \<noteq> [] \<and> CHR ''/'' \<notin> set org \<and> Path u = ''/'' @ org
      \<longrightarrow> ParseGitHubRootURI L uri expectedHost = Inr (ToLower L org, [])
          \<and> ParseGitHubRootURI_GitHubRoot L uri expectedHost = Inl (ErrNoOwnerRepo uri))
   \<and> (ParseGitHubRootURI_GitHubRoot L uri expectedHost = Inl e'
      \<longrightarrow> (\<exists>e. ParseGitHubRootURI L uri expectedHost = Inl e)
          \<or> (\<exists>o'. ParseGitHubRootURI L uri expectedHost = Inr (o', [])
                 \<or> ParseGitHubRootURI L uri expectedHost = Inr (o', ToLower L [])))"
  using variants_related [of L uri expectedHost ownr rp e]
        ParseGitHubRootURI_org_level [of L uri u expectedHost org]
        GitHubRoot_org_level [of L uri u expectedHost org]
        GitHubRoot_error_converse [of L uri expectedHost e']
  by blast

theorem ParseGitHubRootURI_variants_related_witness:
  "ParseGitHubRootURI_GitHubRoot ascii_stdlib ''https://github.com/OctoCat/My-Repo'' ''github.com''
     = Inr (''OctoCat'', ''My-Repo'')
   \<and> ParseGitHubRootURI ascii_stdlib ''https://github.com/OctoCat/My-Repo'' ''github.com''
     = Inr (''octocat'', ''my-repo'')
   \<and> ParseGitHubRootURI ascii_stdlib ''https://gitlab.com/octocat/Hello-World'' ''github.com''
     = Inl (ErrHostMismatch ''gitlab.com'' ''github.com'')
   \<and> (\<exists>e'. ParseGitHubRootURI_GitHubRoot ascii_stdlib ''https://gitlab.com/octocat/Hello-World'' ''github.com'' = Inl e')
   \<and> url_Parse ascii_stdlib ''git://github.com/MyOrg''
     = Some \<lparr>Scheme = ''git'', Host = ''github.com'', Path = ''/MyOrg''\<rparr>
   \<and> ParseGitHubRootURI ascii_stdlib ''git://github.com/MyOrg'' ''github.com'' = Inr (''myorg'', [])
   \<and> ParseGitHubRootURI_GitHubRoot ascii_stdlib ''git://github.com/MyOrg'' ''github.com''
     = Inl (ErrNoOwnerRepo ''git://github.com/MyOrg'')
   \<and> ParseGitHubRootURI_GitHubRoot ascii_stdlib ''https://github.com/a/.git'' ''github.com''
     = Inl (ErrEmptyRepo ''https://github.com/a/.git'')
   \<and> ((\<exists>e. ParseGitHubRootURI ascii_stdlib ''https://github.com/a/.git'' ''github.com'' = Inl e)
       \<or> (\<exists>o'. ParseGitHubRootURI ascii_stdlib ''https://github.com/a/.git'' ''github.com'' = Inr (o', [])
              \<or> ParseGitHubRootURI ascii_stdlib ''https://github.com/a/.git'' ''github.com''
                   = Inr (o', ToLower ascii_stdlib [])))"
proof -
  have a: "ParseGitHubRootURI_GitHubRoot ascii_stdlib ''https://github.com/OctoCat/My-Repo'' ''github.com''
     = Inr (''OctoCat'', ''My-Repo'')"
    by code_simp
  have l: "ToLower ascii_stdlib ''OctoCat'' = ''octocat''" "ToLower ascii_stdlib ''My-Repo'' = ''my-repo''"
    "ToLower ascii_stdlib ''MyOrg'' = ''myorg''"
    by code_simp+
  have b: "ParseGitHubRootURI ascii_stdlib ''https://gitlab.com/octocat/Hello-World'' ''github.com''
     = Inl (ErrHostMismatch ''gitlab.com'' ''github.com'')"
    by code_simp
  have p: "url_Parse ascii_stdlib ''git://github.com/MyOrg''
     = Some \<lparr>Scheme = ''git'', Host = ''github.com'', Path = ''/MyOrg''\<rparr>"
    by code_simp
  have f: "EqualFold ascii_stdlib ''github.com'' ''github.com''" by code_simp
  have c: "ParseGitHubRootURI_GitHubRoot ascii_stdlib ''https://github.com/a/.git'' ''github.com''
     = Inl (ErrEmptyRepo ''https://github.com/a/.git'')"
    by code_simp
  have r1: "ParseGitHubRootURI ascii_stdlib ''https://github.com/OctoCat/My-Repo'' ''github.com''
     = Inr (''octocat'', ''my-repo'')"
    using a l ParseGitHubRootURI_variants_related [where L = ascii_stdlib
      and uri = "''https://github.com/OctoCat/My-Repo''" and expectedHost = "''github.com''"
      and ownr = "''OctoCat''" and rp = "''My-Repo''"]
    by simp
  have r2: "\<exists>e'. ParseGitHubRootURI_GitHubRoot ascii_stdlib ''https://gitlab.com/octocat/Hello-World'' ''github.com'' = Inl e'"
    using b ParseGitHubRootURI_variants_related [where L = ascii_stdlib
      and uri = "''https://gitlab.com/octocat/Hello-World''" and expectedHost = "''github.com''"
      and e = "ErrHostMismatch ''gitlab.com'' ''github.com''"]
    by simp
  have r3: "ParseGitHubRootURI ascii_stdlib ''git://github.com/MyOrg'' ''github.com'' = Inr (''myorg'', [])
     \<and> ParseGitHubRootURI_GitHubRoot ascii_stdlib ''git://github.com/MyOrg'' ''github.com''
       = Inl (ErrNoOwnerRepo ''git://github.com/MyOrg'')"
    using p f l ParseGitHubRootURI_variants_related [where L = ascii_stdlib
      and uri = "''git://github.com/MyOrg''" and expectedHost = "''github.com''"
      and u = "\<lparr>Scheme = ''git'', Host = ''github.com'', Path = ''/MyOrg''\<rparr>"
      and org = "''MyOrg''"]
    by simp
  have r4: "(\<exists>e. ParseGitHubRootURI ascii_stdlib ''https://github.com/a/.git'' ''github.com'' = Inl e)
       \<or> (\<exists>o'. ParseGitHubRootURI ascii_stdlib ''https://github.com/a/.git'' ''github.com'' = Inr (o', [])
              \<or> ParseGitHubRootURI ascii_stdlib ''https://github.com/a/.git'' ''github.com''
                   = Inr (o', ToLower ascii_stdlib []))"
    using c ParseGitHubRootURI_variants_related [where L = ascii_stdlib
      and uri = "''https://github.com/a/.git''" and expectedHost = "''github.com''"
      and e' = "ErrEmptyRepo ''https://github.com/a/.git''"]
    by blast
  from a b c p r1 r2 r3 r4 show ?thesis by blast
qed

section \<open>Facts about the enforcement middleware\<close>

lemma ParseGitHubRoots_nonempty: "ParseGitHubRoots L roots host \<noteq> [] \<Longrightarrow> roots \<noteq> []"
  by (cases roots) auto

lemma RootsEnforcementMiddleware_checked:
  assumes "Session callReq = Some session" and "ListRoots session = Inr (Some rr)"
    and "ParseGitHubRoots L (Roots rr) host = S" and "S \<noteq> []"
    and "decodeArguments (Arguments (Params callReq)) = Some args"
    and "map_of args ''owner'' = Some (AString ownr)" and "ownr \<noteq> []"
  shows "RootsEnforcementMiddleware L host next ''tools/call'' (CallTool callReq) =
     (if \<not> list_ex (\<lambda>r. Owner r = ToLower L ownr) S
      then (ToolResult (NewToolResultError (ownerDeniedMsg L ownr S)), None)
      else case checked_repo (map_of args ''repo'') of
             None \<Rightarrow> next ''tools/call'' (CallTool callReq)
           | Some repo \<Rightarrow>
               if \<not> list_ex (\<lambda>r. Owner r = ToLower L ownr \<and> Repo r = []) S
                  \<and> \<not> list_ex (\<lambda>r. Owner r = ToLower L ownr \<and> Repo r = ToLower L repo) S
               then (ToolResult (NewToolResultError (repoDeniedMsg L ownr repo (ToLower L ownr) S)), None)
               else next ''tools/call'' (CallTool callReq))"
proof -
  from assms(3,4) have "Roots rr \<noteq> []" using ParseGitHubRoots_nonempty by blast
  with assms show ?thesis
    by (cases "map_of args ''repo''" rule: checked_repo.cases)
       (simp_all add: RootsEnforcementMiddleware_def Let_def)
qed

lemma spec_call_allowed_None:
  "spec_call_allowed L ownr None S = list_ex (\<lambda>r. Owner r = ToLower L ownr) S"
  by (simp add: spec_call_allowed_def)

lemma spec_call_allowed_Some:
  "spec_call_allowed L ownr (Some repo) S =
     (list_ex (\<lambda>r. Owner r = ToLower L ownr) S
      \<and> (list_ex (\<lambda>r. Owner r = ToLower L ownr \<and> Repo r = []) S
         \<or> list_ex (\<lambda>r. Owner r = ToLower L ownr \<and> Repo r = ToLower L repo) S))"
  by (auto simp: spec_call_allowed_def list_ex_iff)

lemma denial_not_handler:
  "(\<forall>next. (ToolResult r, None) = next m q) = False"
  by (auto intro: exI [of _ "\<lambda>_ _. (NilResult, None)"])

lemma enforcement_pass_unusable_owner:
  assumes "decodeArguments (Arguments (Params callReq)) = Some args"
    and "map_of args ''owner'' = Some v"
    and "v = AString [] \<or> (\<forall>s. v \<noteq> AString s)"
  shows "RootsEnforcementMiddleware L host next method (CallTool callReq)
           = next method (CallTool callReq)"
  using assms
  by (cases v)
     (simp_all add: RootsEnforcementMiddleware_def Let_def split: option.splits sum.splits)

lemma enforcement_pass_early:
  assumes "method \<noteq> ''tools/call'' \<or> (\<forall>c. request \<noteq> CallTool c)"
  shows "RootsEnforcementMiddleware L host next method request = next method request"
  using assms by (cases request) (auto simp: RootsEnforcementMiddleware_def)

lemma enforcement_pass_no_roots:
  assumes "Session callReq = None
     \<or> (\<exists>session. Session callReq = Some session
          \<and> (case ListRoots session of
                Inl err \<Rightarrow> True
              | Inr None \<Rightarrow> True
              | Inr (Some rr) \<Rightarrow> ParseGitHubRoots L (Roots rr) host = []))"
  shows "RootsEnforcementMiddleware L host next method (CallTool callReq)
           = next method (CallTool callReq)"
  using assms
  by (auto simp: RootsEnforcementMiddleware_def Let_def split: option.splits sum.splits)

lemma enforcement_pass_args:
  assumes "decodeArguments (Arguments (Params callReq)) = None
     \<or> (\<exists>args. decodeArguments (Arguments (Params callReq)) = Some args
           \<and> map_of args ''owner'' = None)"
  shows "RootsEnforcementMiddleware L host next method (CallTool callReq)
           = next method (CallTool callReq)"
  using assms
  by (auto simp: RootsEnforcementMiddleware_def Let_def split: option.splits sum.splits)



lemma sublist_Join: "x \<in> set xs \<Longrightarrow> sublist x (Join xs sep)"
proof (induction xs sep rule: Join.induct)
  case (1 sep)
  then show ?case by simp
next
  case (2 x' sep)
  then show ?case by simp
next
  case (3 x' y ys sep)
  show ?case
  proof (cases "x = x'")
    case True
    then show ?thesis by simp
  next
    case False
    with 3 have "sublist x (Join (y # ys) sep)" by simp
    then obtain ps ss where "Join (y # ys) sep = ps @ x @ ss" by (auto simp: sublist_def)
    then have "Join (x' # y # ys) sep = (x' @ sep @ ps) @ x @ ss" by simp
    then show ?thesis unfolding sublist_def by blast
  qed
qed

lemma sublist_in_context: "sublist x m \<Longrightarrow> sublist x (a @ m @ b)"
  by (auto simp: sublist_def) (metis append.assoc)

lemma ownerDeniedMsg_names:
  "sublist (Quote L ownr) (ownerDeniedMsg L ownr S)
   \<and> (\<forall>r\<in>set S. sublist (Quote L (Owner r)) (ownerDeniedMsg L ownr S))"
proof (intro conjI ballI)
  show "sublist (Quote L ownr) (ownerDeniedMsg L ownr S)"
    unfolding ownerDeniedMsg_def Let_def by (rule sublist_appendI)
next
  fix r assume "r \<in> set S"
  then have "Quote L (Owner r) \<in> set (map (Quote L) (sort_key (range_rank L) (remdups (map Owner S))))"
    by simp
  then have j: "sublist (Quote L (Owner r))
      (Join (map (Quote L) (sort_key (range_rank L) (remdups (map Owner S)))) '', '')"
    by (rule sublist_Join)
  have "sublist (Quote L (Owner r))
      ((''root enforcement: owner '' @ Quote L ownr
           @ '' is not within configured roots (allowed owners: '')
        @ Join (map (Quote L) (sort_key (range_rank L) (remdups (map Owner S)))) '', '' @ '')'')"
    using j by (rule sublist_in_context)
  then show "sublist (Quote L (Owner r)) (ownerDeniedMsg L ownr S)"
    by (simp add: ownerDeniedMsg_def Let_def)
qed

lemma repoDeniedMsg_names:
  "sublist (Quote L ownr @ ''/'' @ Quote L repo) (repoDeniedMsg L ownr repo ownerLower S)
   \<and> (\<forall>r\<in>set S. Owner r = ownerLower \<and> Repo r \<noteq> []
         \<longrightarrow> sublist (Quote L (Repo r)) (repoDeniedMsg L ownr repo ownerLower S))"
proof (intro conjI ballI impI)
  have "sublist (Quote L ownr @ ''/'' @ Quote L repo)
     (''root enforcement: repository '' @ (Quote L ownr @ ''/'' @ Quote L repo)
        @ ('' is not within configured roots (allowed repos for '' @ Quote L ownr
           @ '': '' @ Join (map (\<lambda>r. Quote L (Repo r))
              (filter (\<lambda>r. Owner r = ownerLower \<and> Repo r \<noteq> []) S)) '', '' @ '')''))"
    by (rule sublist_appendI)
  then show "sublist (Quote L ownr @ ''/'' @ Quote L repo) (repoDeniedMsg L ownr repo ownerLower S)"
    by (simp add: repoDeniedMsg_def Let_def)
next
  fix r assume "r \<in> set S" and "Owner r = ownerLower \<and> Repo r \<noteq> []"
  then have "Quote L (Repo r) \<in> set (map (\<lambda>r. Quote L (Repo r))
              (filter (\<lambda>r. Owner r = ownerLower \<and> Repo r \<noteq> []) S))"
    by auto
  then have j: "sublist (Quote L (Repo r))
      (Join (map (\<lambda>r. Quote L (Repo r))
              (filter (\<lambda>r. Owner r = ownerLower \<and> Repo r \<noteq> []) S)) '', '')"
    by (rule sublist_Join)
  have "sublist (Quote L (Repo r))
      ((''root enforcement: repository '' @ Quote L ownr @ ''/'' @ Quote L repo
           @ '' is not within configured roots (allowed repos for '' @ Quote L ownr @ '': '')
        @ Join (map (\<lambda>r. Quote L (Repo r))
              (filter (\<lambda>r. Owner r = ownerLower \<and> Repo r \<noteq> []) S)) '', '' @ '')'')"
    using j by (rule sublist_in_context)
  then show "sublist (Quote L (Repo r)) (repoDeniedMsg L ownr repo ownerLower S)"
    by (simp add: repoDeniedMsg_def Let_def)
qed

section \<open>Facts about payloads and the injection middleware\<close>

lemma distinct_fst_insort_key:
  "distinct (map fst (insort_key f x xs)) = (fst x \<notin> fst ` set xs \<and> distinct (map fst xs))"
  by (induction xs) (auto simp: image_iff set_insort_key)

lemma distinct_fst_sort_key:
  "distinct (map fst (sort_key f xs)) = distinct (map fst xs)"
  by (induction xs) (simp_all add: distinct_fst_insort_key)

lemma map_of_sort_key:
  assumes "distinct (map fst xs)"
  shows "map_of (sort_key f xs) = map_of xs"
  using assms by (simp add: map_of_inject_set distinct_fst_sort_key)

lemma map_of_rev_distinct:
  assumes "distinct (map fst xs)"
  shows "map_of (rev xs) = map_of xs"
  using assms by (simp add: map_of_inject_set rev_map [symmetric])

lemma map_of_foldl_update:
  "map_of (foldl (\<lambda>m (k, v). AList.update k v m) m0 kvs) = map_of m0 ++ map_of (rev kvs)"
proof (induction kvs arbitrary: m0)
  case Nil
  then show ?case by simp
next
  case (Cons kv kvs)
  obtain k v where kv: "kv = (k, v)" by (cases kv)
  have "map_of (foldl (\<lambda>m (k, v). AList.update k v m) m0 (kv # kvs))
      = map_of (AList.update k v m0) ++ map_of (rev kvs)"
    using Cons.IH [of "AList.update k v m0"] kv by simp
  also have "\<dots> = map_of m0 ++ map_of (rev (kv # kvs))"
    by (rule ext) (simp add: kv update_conv' map_add_def split: option.splits)
  finally show ?case .
qed

lemma distinct_foldl_update:
  "distinct (map fst m0) \<Longrightarrow> distinct (map fst (foldl (\<lambda>m (k, v). AList.update k v m) m0 kvs))"
  by (induction kvs arbitrary: m0) (auto simp: distinct_update)

lemma decodeArguments_distinct:
  assumes "decodeArguments raw = Some args"
  shows "distinct (map fst args)"
proof (cases raw)
  case RawEmpty
  with assms show ?thesis by (simp add: decodeArguments_def)
next
  case RawInvalid
  with assms show ?thesis by (simp add: decodeArguments_def)
next
  case (RawValue v)
  with assms show ?thesis
    by (cases v) (auto simp: decodeArguments_def distinct_foldl_update)
qed

lemma decode_marshalled:
  assumes "distinct (map fst args)"
  shows "\<exists>args'. decodeArguments (RawValue (AObject (sort_key fst args))) = Some args'
           \<and> map_of args' = map_of args"
proof -
  have d: "distinct (map fst (sort_key fst args))"
    using assms by (simp add: distinct_fst_sort_key)
  have "map_of (foldl (\<lambda>m (k, v). AList.update k v m) [] (sort_key fst args)) = map_of args"
    using assms d by (simp add: map_of_foldl_update map_of_rev_distinct map_of_sort_key)
  then show ?thesis by (simp add: decodeArguments_def)
qed

lemma RootsMiddleware_pass_early:
  assumes "method \<noteq> ''tools/call'' \<or> (\<forall>c. request \<noteq> CallTool c)"
  shows "RootsMiddleware L host next method request = next method request"
  using assms by (cases request) (auto simp: RootsMiddleware_def)

lemma RootsMiddleware_pass_no_roots:
  assumes "Session callReq = None
     \<or> (\<exists>session. Session callReq = Some session
          \<and> (case ListRoots session of
                Inl err \<Rightarrow> True
              | Inr None \<Rightarrow> True
              | Inr (Some rr) \<Rightarrow> ParseGitHubRoots L (Roots rr) host = []))"
  shows "RootsMiddleware L host next method (CallTool callReq) = next method (CallTool callReq)"
  using assms
  by (auto simp: RootsMiddleware_def Let_def split: option.splits sum.splits)

lemma RootsMiddleware_resolved:
  assumes "Session callReq = Some session" and "ListRoots session = Inr (Some rr)"
    and "ParseGitHubRoots L (Roots rr) host = S" and "S = r0 # others"
  shows "RootsMiddleware L host next ''tools/call'' (CallTool callReq) =
     (if \<not> list_all (\<lambda>r. Owner r = Owner r0) others then next ''tools/call'' (CallTool callReq)
      else case decodeArguments (Arguments (Params callReq)) of
             None \<Rightarrow> next ''tools/call'' (CallTool callReq)
           | Some args0 \<Rightarrow>
               let hasOwner = (map_of args0 ''owner'' \<noteq> None);
                   args1 = (if \<not> hasOwner
                            then AList.update ''owner'' (AString (Owner r0)) args0
                            else args0);
                   injectRepo = (length (filter (\<lambda>r. Repo r \<noteq> []) S) = 1
                                 \<and> map_of args1 ''repo'' = None);
                   args2 = (if injectRepo
                            then AList.update ''repo''
                                   (AString (Repo (hd (filter (\<lambda>r. Repo r \<noteq> []) S)))) args1
                            else args1)
               in if \<not> (\<not> hasOwner \<or> injectRepo) then next ''tools/call'' (CallTool callReq)
                  else next ''tools/call''
                         (CallTool (callReq\<lparr>Params := (Params callReq)
                             \<lparr>Arguments := RawValue (AObject (sort_key fst args2))\<rparr>\<rparr>)))"
proof -
  from assms(3,4) have "Roots rr \<noteq> []" using ParseGitHubRoots_nonempty by fastforce
  moreover from assms(3,4) have "ParseGitHubRoots L (Roots rr) host = r0 # others" by simp
  ultimately show ?thesis using assms(1,2)
    unfolding assms(4)
    by (simp add: RootsMiddleware_def Let_def json_Marshal_def split: option.splits)
qed

lemma RootsMiddleware_pass_bad_args:
  assumes "decodeArguments (Arguments (Params callReq)) = None"
  shows "RootsMiddleware L host next method (CallTool callReq) = next method (CallTool callReq)"
proof (cases "method \<noteq> ''tools/call''")
  case True
  then show ?thesis using RootsMiddleware_pass_early by blast
next
  case m: False
  show ?thesis
  proof (cases "Session callReq = None
     \<or> (\<exists>session. Session callReq = Some session
          \<and> (case ListRoots session of
                Inl err \<Rightarrow> True
              | Inr None \<Rightarrow> True
              | Inr (Some rr) \<Rightarrow> ParseGitHubRoots L (Roots rr) host = []))")
    case True
    then show ?thesis by (rule RootsMiddleware_pass_no_roots)
  next
    case noroots: False
    then obtain session where s: "Session callReq = Some session"
      by (cases "Session callReq") auto
    with noroots have n2: "\<not> (case ListRoots session of
                Inl err \<Rightarrow> True
              | Inr None \<Rightarrow> True
              | Inr (Some rr) \<Rightarrow> ParseGitHubRoots L (Roots rr) host = [])"
      by simp
    then obtain x where x: "ListRoots session = Inr x"
      by (cases "ListRoots session") auto
    with n2 obtain rr where l: "ListRoots session = Inr (Some rr)"
      and S: "ParseGitHubRoots L (Roots rr) host \<noteq> []"
      by (cases x) auto
    then obtain r0 others where S': "ParseGitHubRoots L (Roots rr) host = r0 # others"
      by (cases "ParseGitHubRoots L (Roots rr) host") auto
    from m have m': "method = ''tools/call''" by simp
    show ?thesis unfolding m'
      by (simp add: RootsMiddleware_resolved [OF s l S' refl] assms)
  qed
qed

lemma single_case_hd:
  "length xs = 1 \<Longrightarrow> (case xs of [] \<Rightarrow> None | [r] \<Rightarrow> f r | r # q # qs \<Rightarrow> None) = f (hd xs)"
  by (cases xs) (auto split: list.splits)

lemma single_case_none:
  "length xs \<noteq> 1 \<Longrightarrow> (case xs of [] \<Rightarrow> None | [r] \<Rightarrow> f r | r # q # qs \<Rightarrow> None) = None"
  by (cases xs) (auto split: list.splits)

lemma injection_single_owner:
  assumes "Session callReq = Some session" and "ListRoots session = Inr (Some rr)"
    and "ParseGitHubRoots L (Roots rr) host = S" and "S \<noteq> []"
    and "decodeArguments (Arguments (Params callReq)) = Some args0"
    and all: "\<forall>r\<in>set S. Owner r = c"
  shows "\<exists>raw args'.
       (\<forall>next. RootsMiddleware L host next ''tools/call'' (CallTool callReq)
           = next ''tools/call'' (CallTool (callReq\<lparr>Params := (Params callReq)\<lparr>Arguments := raw\<rparr>\<rparr>)))
     \<and> decodeArguments raw = Some args'
     \<and> map_of args' ''owner''
         = (case map_of args0 ''owner'' of None \<Rightarrow> Some (AString c) | Some v \<Rightarrow> Some v)
     \<and> map_of args' ''repo''
         = (case map_of args0 ''repo'' of
              Some v \<Rightarrow> Some v
            | None \<Rightarrow> (case filter (\<lambda>r. Repo r \<noteq> []) S of
                         [] \<Rightarrow> None | [r] \<Rightarrow> Some (AString (Repo r)) | r # q # qs \<Rightarrow> None))
     \<and> (\<forall>k. k \<noteq> ''owner'' \<and> k \<noteq> ''repo'' \<longrightarrow> map_of args' k = map_of args0 k)
     \<and> (map_of args0 ''owner'' \<noteq> None
          \<and> (map_of args0 ''repo'' \<noteq> None \<or> length (filter (\<lambda>r. Repo r \<noteq> []) S) \<noteq> 1)
         \<longrightarrow> raw = Arguments (Params callReq))"
proof -
  obtain r0 others where S: "S = r0 # others" using assms(4) by (cases S) auto
  from all S have c: "Owner r0 = c" and same: "list_all (\<lambda>r. Owner r = Owner r0) others"
    by (auto simp: list_all_iff)
  define hasOwner where "hasOwner = (map_of args0 ''owner'' \<noteq> None)"
  define args1 where "args1 = (if \<not> hasOwner then AList.update ''owner'' (AString c) args0 else args0)"
  define repoRoots where "repoRoots = filter (\<lambda>r. Repo r \<noteq> []) S"
  define injectRepo where "injectRepo = (length repoRoots = 1 \<and> map_of args1 ''repo'' = None)"
  define args2 where "args2 = (if injectRepo
       then AList.update ''repo'' (AString (Repo (hd repoRoots))) args1 else args1)"
  have R: "RootsMiddleware L host next ''tools/call'' (CallTool callReq) =
       (if \<not> (\<not> hasOwner \<or> injectRepo) then next ''tools/call'' (CallTool callReq)
        else next ''tools/call''
               (CallTool (callReq\<lparr>Params := (Params callReq)
                   \<lparr>Arguments := RawValue (AObject (sort_key fst args2))\<rparr>\<rparr>)))" for "next"
    unfolding hasOwner_def args1_def repoRoots_def injectRepo_def args2_def
    using same c
    by (simp only: RootsMiddleware_resolved [OF assms(1,2,3) S] assms(5) Let_def
          option.case simp_thms if_True if_False)
  have d0: "distinct (map fst args0)" using assms(5) by (rule decodeArguments_distinct)
  then have d2: "distinct (map fst args2)"
    by (simp add: args2_def args1_def distinct_update)
  have repo1: "map_of args1 ''repo'' = map_of args0 ''repo''"
    by (simp add: args1_def update_conv')
  have own2: "map_of args2 ''owner''
         = (case map_of args0 ''owner'' of None \<Rightarrow> Some (AString c) | Some v \<Rightarrow> Some v)"
    by (auto simp: args2_def args1_def hasOwner_def update_conv' split: option.splits)
  have rep2: "map_of args2 ''repo''
         = (case map_of args0 ''repo'' of
              Some v \<Rightarrow> Some v
            | None \<Rightarrow> (case repoRoots of
                         [] \<Rightarrow> None | [r] \<Rightarrow> Some (AString (Repo r)) | r # q # qs \<Rightarrow> None))"
  proof (cases "map_of args0 ''repo''")
    case (Some v)
    then show ?thesis by (simp add: args2_def injectRepo_def repo1)
  next
    case None
    show ?thesis
    proof (cases "length repoRoots = 1")
      case True
      with None show ?thesis
        by (simp add: args2_def injectRepo_def repo1 update_conv' single_case_hd)
    next
      case False
      with None show ?thesis
        by (simp add: args2_def injectRepo_def repo1 single_case_none)
    qed
  qed
  have oth2: "\<forall>k. k \<noteq> ''owner'' \<and> k \<noteq> ''repo'' \<longrightarrow> map_of args2 k = map_of args0 k"
    by (simp add: args2_def args1_def update_conv')
  show ?thesis
  proof (cases "\<not> hasOwner \<or> injectRepo")
    case True
    from decode_marshalled [OF d2] obtain args' where
      dec: "decodeArguments (RawValue (AObject (sort_key fst args2))) = Some args'"
      and eq: "map_of args' = map_of args2" by blast
    have neg: "\<not> (map_of args0 ''owner'' \<noteq> None
          \<and> (map_of args0 ''repo'' \<noteq> None \<or> length (filter (\<lambda>r. Repo r \<noteq> []) S) \<noteq> 1))"
      using True by (auto simp: hasOwner_def injectRepo_def repo1 repoRoots_def)
    show ?thesis
    proof (intro exI [of _ "RawValue (AObject (sort_key fst args2))"] exI [of _ args'] conjI)
      show "\<forall>next. RootsMiddleware L host next ''tools/call'' (CallTool callReq)
           = next ''tools/call'' (CallTool (callReq\<lparr>Params := (Params callReq)
                \<lparr>Arguments := RawValue (AObject (sort_key fst args2))\<rparr>\<rparr>))"
        using True R by simp
      show "decodeArguments (RawValue (AObject (sort_key fst args2))) = Some args'" by (rule dec)
      show "map_of args' ''owner''
         = (case map_of args0 ''owner'' of None \<Rightarrow> Some (AString c) | Some v \<Rightarrow> Some v)"
        using own2 eq by simp
      show "map_of args' ''repo''
         = (case map_of args0 ''repo'' of
              Some v \<Rightarrow> Some v
            | None \<Rightarrow> (case filter (\<lambda>r. Repo r \<noteq> []) S of
                         [] \<Rightarrow> None | [r] \<Rightarrow> Some (AString (Repo r)) | r # q # qs \<Rightarrow> None))"
        using rep2 [unfolded repoRoots_def] eq by simp
      show "\<forall>k. k \<noteq> ''owner'' \<and> k \<noteq> ''repo'' \<longrightarrow> map_of args' k = map_of args0 k"
        using oth2 eq by simp
      show "map_of args0 ''owner'' \<noteq> None
          \<and> (map_of args0 ''repo'' \<noteq> None \<or> length (filter (\<lambda>r. Repo r \<noteq> []) S) \<noteq> 1)
         \<longrightarrow> RawValue (AObject (sort_key fst args2)) = Arguments (Params callReq)"
        using neg by blast
    qed
  next
    case False
    then have un: "args2 = args0" by (simp add: args2_def args1_def)
    have same_req: "callReq\<lparr>Params := (Params callReq)\<lparr>Arguments := Arguments (Params callReq)\<rparr>\<rparr> = callReq"
      by simp
    from False R assms(5) own2 rep2 [unfolded repoRoots_def] oth2 show ?thesis
      unfolding un
      by (intro exI [of _ "Arguments (Params callReq)"] exI [of _ args0]) (simp add: same_req)
  qed
qed

lemma injection_many_owners:
  assumes "Session callReq = Some session" and "ListRoots session = Inr (Some rr)"
    and "ParseGitHubRoots L (Roots rr) host = S"
    and "r1 \<in> set S" and "r2 \<in> set S" and "Owner r1 \<noteq> Owner r2"
  shows "RootsMiddleware L host next ''tools/call'' (CallTool callReq)
           = next ''tools/call'' (CallTool callReq)"
proof -
  obtain r0 others where S: "S = r0 # others" using assms(4) by (cases S) auto
  have "\<not> list_all (\<lambda>r. Owner r = Owner r0) others"
  proof
    assume "list_all (\<lambda>r. Owner r = Owner r0) others"
    then have "\<forall>r\<in>set S. Owner r = Owner r0" by (auto simp: S list_all_iff)
    with assms(4,5,6) show False by metis
  qed
  then show ?thesis
    by (simp add: RootsMiddleware_resolved [OF assms(1,2,3) S])
qed

section \<open>Root enforcement\<close>

text \<open>
  C1. Root-Enforcement as the specification states it: a call with string owner O,
  optional repo R and non-empty resolved roots S is allowed iff some root has owner
  lower(O) and (its repo is empty, or R is absent, or some root of that owner has repo
  lower(R)). The code departs from this where the owner or the repo is the empty string:
  it lets the call through without a check.
\<close>

theorem enforcement_spec_rule_fails:
  "ParseGitHubRoots ascii_stdlib
      (Roots \<lparr>Roots = [Some \<lparr>root_URI = ''https://github.com/octocat/Hello-World'', root_Name = []\<rparr>]\<rparr>)
      ''github.com''
     = [\<lparr>Owner = ''octocat'', Repo = ''hello-world'',
         URI = ''https://github.com/octocat/Hello-World'', Name = []\<rparr>]
   \<and> \<not> spec_call_allowed ascii_stdlib ''octocat'' (Some [])
         [\<lparr>Owner = ''octocat'', Repo = ''hello-world'',
           URI = ''https://github.com/octocat/Hello-World'', Name = []\<rparr>]
   \<and> RootsEnforcementMiddleware ascii_stdlib ''github.com'' accepting_handler ''tools/call''
        (CallTool (tool_call [''https://github.com/octocat/Hello-World'']
           [(''owner'', AString ''octocat''), (''repo'', AString [])]))
     = (ToolResult \<lparr>Content = [''handled''], IsError = False\<rparr>, None)
   \<and> \<not> spec_call_allowed ascii_stdlib [] None
         [\<lparr>Owner = ''octocat'', Repo = ''hello-world'',
           URI = ''https://github.com/octocat/Hello-World'', Name = []\<rparr>]
   \<and> RootsEnforcementMiddleware ascii_stdlib ''github.com'' accepting_handler ''tools/call''
        (CallTool (tool_call [''https://github.com/octocat/Hello-World'']
           [(''owner'', AString [])]))
     = (ToolResult \<lparr>Content = [''handled''], IsError = False\<rparr>, None)"
  by code_simp

text \<open>
  C1, amended. For a call with a non-empty string owner O and non-empty resolved roots
  S, where a repo argument that is missing, not a string or the empty string counts as
  absent: the call is passed to the handler, unchanged, iff the rule of the
  specification holds of O, the repo and S; otherwise the middleware returns a denial
  whatever the handler is.
\<close>

theorem enforcement_allows_iff:
  assumes "Session callReq = Some session" and "ListRoots session = Inr (Some rr)"
    and "ParseGitHubRoots L (Roots rr) host = S" and "S \<noteq> []"
    and "decodeArguments (Arguments (Params callReq)) = Some args"
    and "map_of args ''owner'' = Some (AString ownr)" and "ownr \<noteq> []"
  shows "(spec_call_allowed L ownr (checked_repo (map_of args ''repo'')) S
           \<longleftrightarrow> (\<forall>next. RootsEnforcementMiddleware L host next ''tools/call'' (CallTool callReq)
                         = next ''tools/call'' (CallTool callReq)))
       \<and> (\<not> spec_call_allowed L ownr (checked_repo (map_of args ''repo'')) S
           \<longrightarrow> (\<exists>msg. \<forall>next. RootsEnforcementMiddleware L host next ''tools/call'' (CallTool callReq)
                         = (ToolResult (NewToolResultError msg), None)))"
proof (cases "checked_repo (map_of args ''repo'')")
  case None
  then show ?thesis
    by (auto simp: RootsEnforcementMiddleware_checked [OF assms] spec_call_allowed_None denial_not_handler)
next
  case (Some repo)
  then show ?thesis
    by (auto simp: RootsEnforcementMiddleware_checked [OF assms] spec_call_allowed_Some denial_not_handler)
qed

theorem enforcement_allows_iff_witness:
  "spec_call_allowed ascii_stdlib ''MyOrg'' (checked_repo (Some (AString ''anything'')))
      [\<lparr>Owner = ''myorg'', Repo = [], URI = ''https://github.com/myorg'', Name = []\<rparr>]
   \<and> RootsEnforcementMiddleware ascii_stdlib ''github.com'' accepting_handler ''tools/call''
        (CallTool (tool_call [''https://github.com/myorg'']
           [(''owner'', AString ''MyOrg''), (''repo'', AString ''anything'')]))
     = accepting_handler ''tools/call''
        (CallTool (tool_call [''https://github.com/myorg'']
           [(''owner'', AString ''MyOrg''), (''repo'', AString ''anything'')]))
   \<and> \<not> spec_call_allowed ascii_stdlib ''myorg'' (checked_repo (Some (AString ''repo-b'')))
      [\<lparr>Owner = ''myorg'', Repo = ''repo-a'', URI = ''https://github.com/myorg/repo-a'', Name = []\<rparr>]
   \<and> (\<exists>msg. RootsEnforcementMiddleware ascii_stdlib ''github.com'' accepting_handler ''tools/call''
        (CallTool (tool_call [''https://github.com/myorg/repo-a'']
           [(''owner'', AString ''myorg''), (''repo'', AString ''repo-b'')]))
     = (ToolResult (NewToolResultError msg), None))"
proof -
  let ?c1 = "tool_call [''https://github.com/myorg'']
           [(''owner'', AString ''MyOrg''), (''repo'', AString ''anything'')]"
  let ?S1 = "[\<lparr>Owner = ''myorg'', Repo = [], URI = ''https://github.com/myorg'', Name = []\<rparr>]"
  let ?c2 = "tool_call [''https://github.com/myorg/repo-a'']
           [(''owner'', AString ''myorg''), (''repo'', AString ''repo-b'')]"
  let ?S2 = "[\<lparr>Owner = ''myorg'', Repo = ''repo-a'', URI = ''https://github.com/myorg/repo-a'', Name = []\<rparr>]"
  have a1: "Session ?c1 = Some (session_with_roots [''https://github.com/myorg''])"
    and b1: "ListRoots (session_with_roots [''https://github.com/myorg''])
       = Inr (Some \<lparr>Roots = [Some \<lparr>root_URI = ''https://github.com/myorg'', root_Name = []\<rparr>]\<rparr>)"
    and c1: "ParseGitHubRoots ascii_stdlib
       (Roots \<lparr>Roots = [Some \<lparr>root_URI = ''https://github.com/myorg'', root_Name = []\<rparr>]\<rparr>) ''github.com'' = ?S1"
    and d1: "decodeArguments (Arguments (Params ?c1))
       = Some [(''owner'', AString ''MyOrg''), (''repo'', AString ''anything'')]"
    by code_simp+
  have a2: "Session ?c2 = Some (session_with_roots [''https://github.com/myorg/repo-a''])"
    and b2: "ListRoots (session_with_roots [''https://github.com/myorg/repo-a''])
       = Inr (Some \<lparr>Roots = [Some \<lparr>root_URI = ''https://github.com/myorg/repo-a'', root_Name = []\<rparr>]\<rparr>)"
    and c2: "ParseGitHubRoots ascii_stdlib
       (Roots \<lparr>Roots = [Some \<lparr>root_URI = ''https://github.com/myorg/repo-a'', root_Name = []\<rparr>]\<rparr>) ''github.com'' = ?S2"
    and d2: "decodeArguments (Arguments (Params ?c2))
       = Some [(''owner'', AString ''myorg''), (''repo'', AString ''repo-b'')]"
    by code_simp+
  have s1: "spec_call_allowed ascii_stdlib ''MyOrg'' (checked_repo (Some (AString ''anything''))) ?S1"
    and s2: "\<not> spec_call_allowed ascii_stdlib ''myorg'' (checked_repo (Some (AString ''repo-b''))) ?S2"
    by code_simp+
  have e1: "?S1 \<noteq> []" and e2: "?S2 \<noteq> []" by simp_all
  have o1: "map_of [(''owner'', AString ''MyOrg''), (''repo'', AString ''anything'')] ''owner''
       = Some (AString ''MyOrg'')"
    and o2: "map_of [(''owner'', AString ''myorg''), (''repo'', AString ''repo-b'')] ''owner''
       = Some (AString ''myorg'')"
    by simp_all
  have m1: "map_of [(''owner'', AString ''MyOrg''), (''repo'', AString ''anything'')] ''repo''
       = Some (AString ''anything'')"
    and m2: "map_of [(''owner'', AString ''myorg''), (''repo'', AString ''repo-b'')] ''repo''
       = Some (AString ''repo-b'')"
    by simp_all
  have n1: "''MyOrg'' \<noteq> []" and n2: "''myorg'' \<noteq> []" by simp_all
  note t1 = enforcement_allows_iff [OF a1 b1 c1 e1 d1 o1 n1, unfolded m1]
  note t2 = enforcement_allows_iff [OF a2 b2 c2 e2 d2 o2 n2, unfolded m2]
  from t1 s1 have r1: "RootsEnforcementMiddleware ascii_stdlib ''github.com'' accepting_handler ''tools/call''
        (CallTool ?c1) = accepting_handler ''tools/call'' (CallTool ?c1)"
    by blast
  from t2 s2 have r2: "\<exists>msg. RootsEnforcementMiddleware ascii_stdlib ''github.com'' accepting_handler ''tools/call''
        (CallTool ?c2) = (ToolResult (NewToolResultError msg), None)"
    by blast
  from s1 s2 r1 r2 show ?thesis by blast
qed

text \<open>
  C3. A denial is the result of NewToolResultError on the message, an error result with
  IsError set, returned with a nil error. When no root has the owner, the message is the
  owner message: it contains the quoted owner as given and the quoted owner of every
  root. Otherwise the repo was refused: the message is the repo message, it contains the
  quoted owner/repo pair and the quoted repo of every root of that owner.
\<close>

theorem enforcement_denial_is_tool_error:
  assumes "Session callReq = Some session" and "ListRoots session = Inr (Some rr)"
    and "ParseGitHubRoots L (Roots rr) host = S" and "S \<noteq> []"
    and "decodeArguments (Arguments (Params callReq)) = Some args"
    and "map_of args ''owner'' = Some (AString ownr)" and "ownr \<noteq> []"
    and "\<not> spec_call_allowed L ownr (checked_repo (map_of args ''repo'')) S"
  shows "\<exists>msg. RootsEnforcementMiddleware L host next ''tools/call'' (CallTool callReq)
              = (ToolResult \<lparr>Content = [msg], IsError = True\<rparr>, None)
     \<and> (if list_ex (\<lambda>r. Owner r = ToLower L ownr) S
         then (\<exists>repo. map_of args ''repo'' = Some (AString repo) \<and> repo \<noteq> []
                 \<and> msg = repoDeniedMsg L ownr repo (ToLower L ownr) S
                 \<and> sublist (Quote L ownr @ ''/'' @ Quote L repo) msg
                 \<and> (\<forall>r\<in>set S. Owner r = ToLower L ownr \<longrightarrow> sublist (Quote L (Repo r)) msg))
         else msg = ownerDeniedMsg L ownr S
              \<and> sublist (Quote L ownr) msg
              \<and> (\<forall>r\<in>set S. sublist (Quote L (Owner r)) msg))"
proof (cases "list_ex (\<lambda>r. Owner r = ToLower L ownr) S")
  case False
  have "RootsEnforcementMiddleware L host next ''tools/call'' (CallTool callReq)
      = (ToolResult \<lparr>Content = [ownerDeniedMsg L ownr S], IsError = True\<rparr>, None)"
    using False
    by (simp add: RootsEnforcementMiddleware_checked [OF assms(1-7)] NewToolResultError_def)
  with False ownerDeniedMsg_names [of L ownr S] show ?thesis by auto
next
  case True
  with assms(8) obtain repo where c: "checked_repo (map_of args ''repo'') = Some repo"
    by (cases "checked_repo (map_of args ''repo'')") (auto simp: spec_call_allowed_None)
  then have m: "map_of args ''repo'' = Some (AString repo)" and ne: "repo \<noteq> []"
    by (cases "map_of args ''repo''" rule: checked_repo.cases; simp split: if_splits)+
  from assms(8) True c have
    no_org: "\<not> list_ex (\<lambda>r. Owner r = ToLower L ownr \<and> Repo r = []) S"
    and no_repo: "\<not> list_ex (\<lambda>r. Owner r = ToLower L ownr \<and> Repo r = ToLower L repo) S"
    by (simp_all add: spec_call_allowed_Some)
  have res: "RootsEnforcementMiddleware L host next ''tools/call'' (CallTool callReq)
      = (ToolResult \<lparr>Content = [repoDeniedMsg L ownr repo (ToLower L ownr) S], IsError = True\<rparr>, None)"
    using True c no_org no_repo
    by (simp add: RootsEnforcementMiddleware_checked [OF assms(1-7)] NewToolResultError_def)
  have all: "\<forall>r\<in>set S. Owner r = ToLower L ownr
       \<longrightarrow> sublist (Quote L (Repo r)) (repoDeniedMsg L ownr repo (ToLower L ownr) S)"
    using repoDeniedMsg_names [of L ownr repo "ToLower L ownr" S] no_org
    by (auto simp: list_ex_iff)
  from res True m ne all repoDeniedMsg_names [of L ownr repo "ToLower L ownr" S]
  show ?thesis by auto
qed

theorem enforcement_denial_is_tool_error_witness:
  "(\<exists>msg. RootsEnforcementMiddleware ascii_stdlib ''github.com'' accepting_handler ''tools/call''
        (CallTool (tool_call [''https://github.com/org-a/repo'', ''https://github.com/org-b/repo'']
           [(''owner'', AString ''org-c''), (''repo'', AString ''repo'')]))
        = (ToolResult \<lparr>Content = [msg], IsError = True\<rparr>, None)
      \<and> sublist (ascii_Quote ''org-c'') msg
      \<and> sublist (ascii_Quote ''org-a'') msg \<and> sublist (ascii_Quote ''org-b'') msg)
   \<and> (\<exists>msg. RootsEnforcementMiddleware ascii_stdlib ''github.com'' accepting_handler ''tools/call''
        (CallTool (tool_call [''https://github.com/myorg/repo-a'']
           [(''owner'', AString ''myorg''), (''repo'', AString ''repo-b'')]))
        = (ToolResult \<lparr>Content = [msg], IsError = True\<rparr>, None)
      \<and> sublist (ascii_Quote ''myorg'' @ ''/'' @ ascii_Quote ''repo-b'') msg
      \<and> sublist (ascii_Quote ''repo-a'') msg)"
proof -
  let ?u1 = "[''https://github.com/org-a/repo'', ''https://github.com/org-b/repo'']"
  let ?a1 = "[(''owner'', AString ''org-c''), (''repo'', AString ''repo'')]"
  let ?S1 = "[\<lparr>Owner = ''org-a'', Repo = ''repo'', URI = ''https://github.com/org-a/repo'', Name = []\<rparr>,
              \<lparr>Owner = ''org-b'', Repo = ''repo'', URI = ''https://github.com/org-b/repo'', Name = []\<rparr>]"
  let ?rr1 = "\<lparr>Roots = [Some \<lparr>root_URI = ''https://github.com/org-a/repo'', root_Name = []\<rparr>,
                          Some \<lparr>root_URI = ''https://github.com/org-b/repo'', root_Name = []\<rparr>]\<rparr>"
  let ?u2 = "[''https://github.com/myorg/repo-a'']"
  let ?a2 = "[(''owner'', AString ''myorg''), (''repo'', AString ''repo-b'')]"
  let ?S2 = "[\<lparr>Owner = ''myorg'', Repo = ''repo-a'', URI = ''https://github.com/myorg/repo-a'', Name = []\<rparr>]"
  let ?rr2 = "\<lparr>Roots = [Some \<lparr>root_URI = ''https://github.com/myorg/repo-a'', root_Name = []\<rparr>]\<rparr>"
  have a1: "Session (tool_call ?u1 ?a1) = Some (session_with_roots ?u1)"
    and b1: "ListRoots (session_with_roots ?u1) = Inr (Some ?rr1)"
    and c1: "ParseGitHubRoots ascii_stdlib (Roots ?rr1) ''github.com'' = ?S1"
    and d1: "decodeArguments (Arguments (Params (tool_call ?u1 ?a1))) = Some ?a1"
    and s1: "\<not> spec_call_allowed ascii_stdlib ''org-c'' (checked_repo (map_of ?a1 ''repo'')) ?S1"
    and x1: "\<not> list_ex (\<lambda>r. Owner r = ToLower ascii_stdlib ''org-c'') ?S1"
    by code_simp+
  have q1: "Quote ascii_stdlib = ascii_Quote" by (simp add: ascii_stdlib_def)
  have a2: "Session (tool_call ?u2 ?a2) = Some (session_with_roots ?u2)"
    and b2: "ListRoots (session_with_roots ?u2) = Inr (Some ?rr2)"
    and c2: "ParseGitHubRoots ascii_stdlib (Roots ?rr2) ''github.com'' = ?S2"
    and d2: "decodeArguments (Arguments (Params (tool_call ?u2 ?a2))) = Some ?a2"
    and s2: "\<not> spec_call_allowed ascii_stdlib ''myorg'' (checked_repo (map_of ?a2 ''repo'')) ?S2"
    and x2: "list_ex (\<lambda>r. Owner r = ToLower ascii_stdlib ''myorg'') ?S2"
    and y2: "ToLower ascii_stdlib ''myorg'' = ''myorg''"
    by code_simp+
  have e1: "?S1 \<noteq> []" and e2: "?S2 \<noteq> []" by simp_all
  have o1: "map_of ?a1 ''owner'' = Some (AString ''org-c'')"
    and o2: "map_of ?a2 ''owner'' = Some (AString ''myorg'')" by simp_all
  have n1: "''org-c'' \<noteq> []" and n2: "''myorg'' \<noteq> []" by simp_all
  note t1 = enforcement_denial_is_tool_error [OF a1 b1 c1 e1 d1 o1 n1 s1, of accepting_handler]
  note t2 = enforcement_denial_is_tool_error [OF a2 b2 c2 e2 d2 o2 n2 s2, of accepting_handler]
  from t1 x1 have r1: "\<exists>msg. RootsEnforcementMiddleware ascii_stdlib ''github.com'' accepting_handler ''tools/call''
        (CallTool (tool_call ?u1 ?a1)) = (ToolResult \<lparr>Content = [msg], IsError = True\<rparr>, None)
      \<and> sublist (ascii_Quote ''org-c'') msg
      \<and> sublist (ascii_Quote ''org-a'') msg \<and> sublist (ascii_Quote ''org-b'') msg"
    by (simp add: q1)
  from t2 x2 have r2: "\<exists>msg. RootsEnforcementMiddleware ascii_stdlib ''github.com'' accepting_handler ''tools/call''
        (CallTool (tool_call ?u2 ?a2)) = (ToolResult \<lparr>Content = [msg], IsError = True\<rparr>, None)
      \<and> sublist (ascii_Quote ''myorg'' @ ''/'' @ ascii_Quote ''repo-b'') msg
      \<and> sublist (ascii_Quote ''repo-a'') msg"
    by (simp add: q1 y2)
  from r1 r2 show ?thesis by blast
qed

text \<open>
  C9. A call whose arguments hold an owner that is not a string, or is the empty string,
  is passed to the handler unchanged, whatever the method, the session and its roots.
\<close>

theorem enforcement_skips_unusable_owner:
  assumes "decodeArguments (Arguments (Params callReq)) = Some args"
    and "map_of args ''owner'' = Some v"
    and "v = AString [] \<or> (\<forall>s. v \<noteq> AString s)"
  shows "RootsEnforcementMiddleware L host next method (CallTool callReq)
           = next method (CallTool callReq)"
  using assms by (rule enforcement_pass_unusable_owner)

theorem enforcement_skips_unusable_owner_witness:
  "RootsEnforcementMiddleware ascii_stdlib ''github.com'' accepting_handler ''tools/call''
      (CallTool (tool_call [''https://github.com/myorg/myrepo''] [(''owner'', ANumber 5)]))
     = accepting_handler ''tools/call''
      (CallTool (tool_call [''https://github.com/myorg/myrepo''] [(''owner'', ANumber 5)]))
   \<and> RootsEnforcementMiddleware ascii_stdlib ''github.com'' accepting_handler ''tools/call''
      (CallTool (tool_call [''https://github.com/myorg/myrepo'']
         [(''owner'', AString []), (''repo'', AString ''other'')]))
     = accepting_handler ''tools/call''
      (CallTool (tool_call [''https://github.com/myorg/myrepo'']
         [(''owner'', AString []), (''repo'', AString ''other'')]))"
proof -
  let ?u = "[''https://github.com/myorg/myrepo'']"
  let ?a1 = "[(''owner'', ANumber 5)]"
  let ?a2 = "[(''owner'', AString []), (''repo'', AString ''other'')]"
  have d1: "decodeArguments (Arguments (Params (tool_call ?u ?a1))) = Some ?a1"
    and d2: "decodeArguments (Arguments (Params (tool_call ?u ?a2))) = Some ?a2"
    by code_simp+
  have o1: "map_of ?a1 ''owner'' = Some (ANumber 5)"
    and o2: "map_of ?a2 ''owner'' = Some (AString [])" by simp_all
  have v1: "ANumber 5 = AString [] \<or> (\<forall>s. ANumber 5 \<noteq> AString s)"
    and v2: "AString [] = AString [] \<or> (\<forall>s. AString [] \<noteq> AString s)" by simp_all
  from enforcement_skips_unusable_owner [OF d1 o1 v1] enforcement_skips_unusable_owner [OF d2 o2 v2]
  show ?thesis by blast
qed

text \<open>
  C10. Every run of the enforcement middleware either passes the method and the request
  it received to the handler and returns the handler's answer, or returns an error
  result of its own, the same whatever the handler is.
\<close>

theorem enforcement_forwards_or_denies:
  "(\<forall>next. RootsEnforcementMiddleware L host next method request = next method request)
   \<or> (\<exists>msg. \<forall>next. RootsEnforcementMiddleware L host next method request
                  = (ToolResult (NewToolResultError msg), None))"
proof (cases "method \<noteq> ''tools/call'' \<or> (\<forall>c. request \<noteq> CallTool c)")
  case True
  then show ?thesis using enforcement_pass_early by blast
next
  case False
  then obtain callReq where m: "method = ''tools/call''" and r: "request = CallTool callReq"
    by blast
  show ?thesis
  proof (cases "Session callReq = None
     \<or> (\<exists>session. Session callReq = Some session
          \<and> (case ListRoots session of
                Inl err \<Rightarrow> True
              | Inr None \<Rightarrow> True
              | Inr (Some rr) \<Rightarrow> ParseGitHubRoots L (Roots rr) host = []))")
    case True
    then show ?thesis unfolding r using enforcement_pass_no_roots by blast
  next
    case noroots: False
    then obtain session where s: "Session callReq = Some session"
      by (cases "Session callReq") auto
    with noroots have n2: "\<not> (case ListRoots session of
                Inl err \<Rightarrow> True
              | Inr None \<Rightarrow> True
              | Inr (Some rr) \<Rightarrow> ParseGitHubRoots L (Roots rr) host = [])"
      by simp
    then obtain x where x: "ListRoots session = Inr x"
      by (cases "ListRoots session") auto
    with n2 obtain rr where l: "ListRoots session = Inr (Some rr)"
      and S: "ParseGitHubRoots L (Roots rr) host \<noteq> []"
      by (cases x) auto
    show ?thesis
    proof (cases "decodeArguments (Arguments (Params callReq))")
      case None
      then show ?thesis unfolding r using enforcement_pass_args by blast
    next
      case (Some args)
      show ?thesis
      proof (cases "map_of args ''owner''")
        case None
        with Some show ?thesis unfolding r using enforcement_pass_args by blast
      next
        case own: (Some v)
        show ?thesis
        proof (cases "v = AString [] \<or> (\<forall>s. v \<noteq> AString s)")
          case True
          from enforcement_pass_unusable_owner [OF Some own True]
          show ?thesis unfolding r by blast
        next
          case False
          then obtain ownr where v: "v = AString ownr" and ne: "ownr \<noteq> []" by auto
          note c = RootsEnforcementMiddleware_checked [OF s l refl S Some own [unfolded v] ne]
          show ?thesis unfolding r m
            by (simp only: c) (auto split: option.splits)
        qed
      qed
    qed
  qed
qed

theorem enforcement_forwards_or_denies_witness:
  "(\<forall>next. RootsEnforcementMiddleware ascii_stdlib ''github.com'' next ''tools/call''
        (CallTool (tool_call [''https://github.com/myorg/repo-a'']
           [(''owner'', AString ''myorg''), (''repo'', AString ''repo-b'')]))
      = next ''tools/call''
        (CallTool (tool_call [''https://github.com/myorg/repo-a'']
           [(''owner'', AString ''myorg''), (''repo'', AString ''repo-b'')])))
   \<or> (\<exists>msg. \<forall>next. RootsEnforcementMiddleware ascii_stdlib ''github.com'' next ''tools/call''
        (CallTool (tool_call [''https://github.com/myorg/repo-a'']
           [(''owner'', AString ''myorg''), (''repo'', AString ''repo-b'')]))
      = (ToolResult (NewToolResultError msg), None))"
  by (rule enforcement_forwards_or_denies)

section \<open>Root injection\<close>

text \<open>
  C2. Root-Injection on a call whose payload decodes, with resolved roots S. If two roots
  differ in owner, the request reaches the handler as it came. If all roots have the
  owner c, the request reaches the handler with only its argument payload replaced, and
  the new payload decodes to arguments in which owner is c if it was absent and its old
  value otherwise; repo is the repo of the one root with a non-empty repo if repo was
  absent and there is exactly one such root, and its old value (or still absent)
  otherwise; every other key is as before. When owner was present and repo was present
  or not to be injected, the payload is the one that came.
\<close>

theorem injection_fills_absent_fields:
  assumes "Session callReq = Some session" and "ListRoots session = Inr (Some rr)"
    and "ParseGitHubRoots L (Roots rr) host = S" and "S \<noteq> []"
    and "decodeArguments (Arguments (Params callReq)) = Some args0"
  shows "(r1 \<in> set S \<and> r2 \<in> set S \<and> Owner r1 \<noteq> Owner r2 \<longrightarrow>
            (\<forall>next. RootsMiddleware L host next ''tools/call'' (CallTool callReq)
                      = next ''tools/call'' (CallTool callReq)))
     \<and> ((\<forall>r\<in>set S. Owner r = c) \<longrightarrow>
          (\<exists>raw args'.
             (\<forall>next. RootsMiddleware L host next ''tools/call'' (CallTool callReq)
                 = next ''tools/call''
                     (CallTool (callReq\<lparr>Params := (Params callReq)\<lparr>Arguments := raw\<rparr>\<rparr>)))
           \<and> decodeArguments raw = Some args'
           \<and> map_of args' ''owner''
               = (case map_of args0 ''owner'' of None \<Rightarrow> Some (AString c) | Some v \<Rightarrow> Some v)
           \<and> map_of args' ''repo''
               = (case map_of args0 ''repo'' of
                    Some v \<Rightarrow> Some v
                  | None \<Rightarrow> (case filter (\<lambda>r. Repo r \<noteq> []) S of
                               [] \<Rightarrow> None | [r] \<Rightarrow> Some (AString (Repo r)) | r # q # qs \<Rightarrow> None))
           \<and> (\<forall>k. k \<noteq> ''owner'' \<and> k \<noteq> ''repo'' \<longrightarrow> map_of args' k = map_of args0 k)
           \<and> (map_of args0 ''owner'' \<noteq> None
                \<and> (map_of args0 ''repo'' \<noteq> None \<or> length (filter (\<lambda>r. Repo r \<noteq> []) S) \<noteq> 1)
               \<longrightarrow> raw = Arguments (Params callReq))))"
  using injection_many_owners [OF assms(1,2,3), of r1 r2]
        injection_single_owner [OF assms, of c]
  by blast

theorem injection_fills_absent_fields_witness:
  "(\<exists>raw args'.
      RootsMiddleware ascii_stdlib ''github.com'' echo_args ''tools/call''
         (CallTool (tool_call [''https://github.com/myorg'', ''https://github.com/myorg/main-app'']
            [(''state'', AString ''open'')]))
       = echo_args ''tools/call''
           (CallTool ((tool_call [''https://github.com/myorg'', ''https://github.com/myorg/main-app'']
                [(''state'', AString ''open'')])
              \<lparr>Params := (Params (tool_call [''https://github.com/myorg'', ''https://github.com/myorg/main-app'']
                [(''state'', AString ''open'')]))\<lparr>Arguments := raw\<rparr>\<rparr>))
    \<and> decodeArguments raw = Some args'
    \<and> map_of args' ''owner'' = Some (AString ''myorg'')
    \<and> map_of args' ''repo'' = Some (AString ''main-app'')
    \<and> map_of args' ''state'' = Some (AString ''open''))
   \<and> RootsMiddleware ascii_stdlib ''github.com'' echo_args ''tools/call''
         (CallTool (tool_call [''https://github.com/octocat/Hello-World'', ''https://github.com/myorg/myrepo'']
            [(''state'', AString ''open'')]))
       = echo_args ''tools/call''
         (CallTool (tool_call [''https://github.com/octocat/Hello-World'', ''https://github.com/myorg/myrepo'']
            [(''state'', AString ''open'')]))"
proof -
  let ?u1 = "[''https://github.com/myorg'', ''https://github.com/myorg/main-app'']"
  let ?a = "[(''state'', AString ''open'')]"
  let ?rr1 = "\<lparr>Roots = [Some \<lparr>root_URI = ''https://github.com/myorg'', root_Name = []\<rparr>,
                          Some \<lparr>root_URI = ''https://github.com/myorg/main-app'', root_Name = []\<rparr>]\<rparr>"
  let ?S1 = "[\<lparr>Owner = ''myorg'', Repo = [], URI = ''https://github.com/myorg'', Name = []\<rparr>,
              \<lparr>Owner = ''myorg'', Repo = ''main-app'', URI = ''https://github.com/myorg/main-app'', Name = []\<rparr>]"
  let ?u2 = "[''https://github.com/octocat/Hello-World'', ''https://github.com/myorg/myrepo'']"
  let ?rr2 = "\<lparr>Roots = [Some \<lparr>root_URI = ''https://github.com/octocat/Hello-World'', root_Name = []\<rparr>,
                          Some \<lparr>root_URI = ''https://github.com/myorg/myrepo'', root_Name = []\<rparr>]\<rparr>"
  let ?S2 = "[\<lparr>Owner = ''octocat'', Repo = ''hello-world'', URI = ''https://github.com/octocat/Hello-World'', Name = []\<rparr>,
              \<lparr>Owner = ''myorg'', Repo = ''myrepo'', URI = ''https://github.com/myorg/myrepo'', Name = []\<rparr>]"
  have a1: "Session (tool_call ?u1 ?a) = Some (session_with_roots ?u1)"
    and b1: "ListRoots (session_with_roots ?u1) = Inr (Some ?rr1)"
    and c1: "ParseGitHubRoots ascii_stdlib (Roots ?rr1) ''github.com'' = ?S1"
    and d1: "decodeArguments (Arguments (Params (tool_call ?u1 ?a))) = Some ?a"
    by code_simp+
  have a2: "Session (tool_call ?u2 ?a) = Some (session_with_roots ?u2)"
    and b2: "ListRoots (session_with_roots ?u2) = Inr (Some ?rr2)"
    and c2: "ParseGitHubRoots ascii_stdlib (Roots ?rr2) ''github.com'' = ?S2"
    and d2: "decodeArguments (Arguments (Params (tool_call ?u2 ?a))) = Some ?a"
    by code_simp+
  have e1: "?S1 \<noteq> []" and e2: "?S2 \<noteq> []" by simp_all
  have all1: "\<forall>r\<in>set ?S1. Owner r = ''myorg''" by simp
  note t1 = injection_fills_absent_fields [OF a1 b1 c1 e1 d1, where c = "''myorg''",
      THEN conjunct2, THEN mp, OF all1]
  have r1: "\<exists>raw args'.
      RootsMiddleware ascii_stdlib ''github.com'' echo_args ''tools/call'' (CallTool (tool_call ?u1 ?a))
       = echo_args ''tools/call''
           (CallTool ((tool_call ?u1 ?a)\<lparr>Params := (Params (tool_call ?u1 ?a))\<lparr>Arguments := raw\<rparr>\<rparr>))
    \<and> decodeArguments raw = Some args'
    \<and> map_of args' ''owner'' = Some (AString ''myorg'')
    \<and> map_of args' ''repo'' = Some (AString ''main-app'')
    \<and> map_of args' ''state'' = Some (AString ''open'')"
    using t1
    apply (elim exE conjE)
    subgoal for raw args'
      by (intro exI [of _ raw] exI [of _ args']) simp
    done
  let ?r1 = "\<lparr>Owner = ''octocat'', Repo = ''hello-world'', URI = ''https://github.com/octocat/Hello-World'', Name = []\<rparr>"
  let ?r2 = "\<lparr>Owner = ''myorg'', Repo = ''myrepo'', URI = ''https://github.com/myorg/myrepo'', Name = []\<rparr>"
  have m: "?r1 \<in> set ?S2 \<and> ?r2 \<in> set ?S2 \<and> Owner ?r1 \<noteq> Owner ?r2"
    by simp
  note t2 = injection_fills_absent_fields [OF a2 b2 c2 e2 d2, where ?r1.0 = ?r1 and ?r2.0 = ?r2,
      THEN conjunct1, THEN mp, OF m, THEN spec, of echo_args]
  have r2: "RootsMiddleware ascii_stdlib ''github.com'' echo_args ''tools/call'' (CallTool (tool_call ?u2 ?a))
       = echo_args ''tools/call'' (CallTool (tool_call ?u2 ?a))"
    by (rule t2)
  from r1 r2 show ?thesis by blast
qed

text \<open>
  C5. Scenario A as the code runs it: with the single root
  https://github.com/octocat/Hello-World and the arguments {state: "open"}, the handler
  receives owner "octocat", repo "hello-world" and state "open": the repo is the
  lowercased one that the root parser returns, not "Hello-World".
\<close>

theorem scenario_A_injects_lowercased_repo:
  "RootsMiddleware ascii_stdlib ''github.com'' echo_args ''tools/call''
      (CallTool (tool_call [''https://github.com/octocat/Hello-World''] [(''state'', AString ''open'')]))
     = (OtherResult (AObject [(''owner'', AString ''octocat''), (''repo'', AString ''hello-world''),
                              (''state'', AString ''open'')]), None)"
  by code_simp

theorem scenario_A_injects_lowercased_repo_witness:
  "RootsMiddleware ascii_stdlib ''github.com'' echo_args ''tools/call''
      (CallTool (tool_call [''https://github.com/octocat/Hello-World''] [(''state'', AString ''open'')]))
     \<noteq> (OtherResult (AObject [(''owner'', AString ''octocat''), (''repo'', AString ''Hello-World''),
                              (''state'', AString ''open'')]), None)"
  using scenario_A_injects_lowercased_repo by simp

section \<open>Soft failures\<close>

text \<open>
  C6. In both middlewares, a call whose session cannot list its roots, lists none, lists
  none that resolve, or whose argument payload does not decode, is passed to the handler
  as it came, and the handler's answer is returned.
\<close>

theorem soft_failures_pass_through:
  assumes "(\<exists>session. Session callReq = Some session
              \<and> ((\<exists>err. ListRoots session = Inl err)
                 \<or> ListRoots session = Inr None
                 \<or> (\<exists>rr. ListRoots session = Inr (Some rr)
                        \<and> ParseGitHubRoots L (Roots rr) host = [])))
           \<or> decodeArguments (Arguments (Params callReq)) = None"
  shows "RootsMiddleware L host next method (CallTool callReq) = next method (CallTool callReq)
       \<and> RootsEnforcementMiddleware L host next method (CallTool callReq)
           = next method (CallTool callReq)"
proof (cases "decodeArguments (Arguments (Params callReq)) = None")
  case True
  then show ?thesis
    using RootsMiddleware_pass_bad_args enforcement_pass_args by blast
next
  case False
  with assms obtain session where s: "Session callReq = Some session"
    and l: "(\<exists>err. ListRoots session = Inl err) \<or> ListRoots session = Inr None
           \<or> (\<exists>rr. ListRoots session = Inr (Some rr) \<and> ParseGitHubRoots L (Roots rr) host = [])"
    by blast
  from l have "(case ListRoots session of
                Inl err \<Rightarrow> True
              | Inr None \<Rightarrow> True
              | Inr (Some rr) \<Rightarrow> ParseGitHubRoots L (Roots rr) host = [])"
    by auto
  with s have "Session callReq = None
     \<or> (\<exists>session. Session callReq = Some session
          \<and> (case ListRoots session of
                Inl err \<Rightarrow> True
              | Inr None \<Rightarrow> True
              | Inr (Some rr) \<Rightarrow> ParseGitHubRoots L (Roots rr) host = []))"
    by blast
  then show ?thesis
    using RootsMiddleware_pass_no_roots enforcement_pass_no_roots by blast
qed

theorem soft_failures_pass_through_witness:
  "RootsMiddleware ascii_stdlib ''github.com'' echo_args ''tools/call''
      (CallTool \<lparr>Session = Some \<lparr>ListRoots = Inl (Error ''roots/list is not supported'')\<rparr>,
                 Params = \<lparr>tool_Name = ''echo_args'',
                           Arguments = RawValue (AObject [(''state'', AString ''open'')])\<rparr>\<rparr>)
     = echo_args ''tools/call''
      (CallTool \<lparr>Session = Some \<lparr>ListRoots = Inl (Error ''roots/list is not supported'')\<rparr>,
                 Params = \<lparr>tool_Name = ''echo_args'',
                           Arguments = RawValue (AObject [(''state'', AString ''open'')])\<rparr>\<rparr>)
   \<and> RootsEnforcementMiddleware ascii_stdlib ''github.com'' echo_args ''tools/call''
      (CallTool \<lparr>Session = Some \<lparr>ListRoots = Inl (Error ''roots/list is not supported'')\<rparr>,
                 Params = \<lparr>tool_Name = ''echo_args'',
                           Arguments = RawValue (AObject [(''state'', AString ''open'')])\<rparr>\<rparr>)
     = echo_args ''tools/call''
      (CallTool \<lparr>Session = Some \<lparr>ListRoots = Inl (Error ''roots/list is not supported'')\<rparr>,
                 Params = \<lparr>tool_Name = ''echo_args'',
                           Arguments = RawValue (AObject [(''state'', AString ''open'')])\<rparr>\<rparr>)
   \<and> RootsMiddleware ascii_stdlib ''github.com'' echo_args ''tools/call''
      (CallTool (tool_call [''sftp://example.org/home/user/project'']
         [(''owner'', AString ''any-org''), (''repo'', AString ''any-repo'')]))
     = echo_args ''tools/call''
      (CallTool (tool_call [''sftp://example.org/home/user/project'']
         [(''owner'', AString ''any-org''), (''repo'', AString ''any-repo'')]))
   \<and> RootsEnforcementMiddleware ascii_stdlib ''github.com'' echo_args ''tools/call''
      (CallTool (tool_call [''sftp://example.org/home/user/project'']
         [(''owner'', AString ''any-org''), (''repo'', AString ''any-repo'')]))
     = echo_args ''tools/call''
      (CallTool (tool_call [''sftp://example.org/home/user/project'']
         [(''owner'', AString ''any-org''), (''repo'', AString ''any-repo'')]))
   \<and> RootsMiddleware ascii_stdlib ''github.com'' echo_args ''tools/call''
      (CallTool \<lparr>Session = Some (session_with_roots [''https://github.com/myorg/myrepo'']),
                 Params = \<lparr>tool_Name = ''echo_args'', Arguments = RawInvalid\<rparr>\<rparr>)
     = echo_args ''tools/call''
      (CallTool \<lparr>Session = Some (session_with_roots [''https://github.com/myorg/myrepo'']),
                 Params = \<lparr>tool_Name = ''echo_args'', Arguments = RawInvalid\<rparr>\<rparr>)
   \<and> RootsEnforcementMiddleware ascii_stdlib ''github.com'' echo_args ''tools/call''
      (CallTool \<lparr>Session = Some (session_with_roots [''https://github.com/myorg/myrepo'']),
                 Params = \<lparr>tool_Name = ''echo_args'', Arguments = RawInvalid\<rparr>\<rparr>)
     = echo_args ''tools/call''
      (CallTool \<lparr>Session = Some (session_with_roots [''https://github.com/myorg/myrepo'']),
                 Params = \<lparr>tool_Name = ''echo_args'', Arguments = RawInvalid\<rparr>\<rparr>)"
proof -
  let ?c1 = "\<lparr>Session = Some \<lparr>ListRoots = Inl (Error ''roots/list is not supported'')\<rparr>,
                 Params = \<lparr>tool_Name = ''echo_args'',
                           Arguments = RawValue (AObject [(''state'', AString ''open'')])\<rparr>\<rparr>"
  let ?c2 = "tool_call [''sftp://example.org/home/user/project'']
         [(''owner'', AString ''any-org''), (''repo'', AString ''any-repo'')]"
  let ?c3 = "\<lparr>Session = Some (session_with_roots [''https://github.com/myorg/myrepo'']),
                 Params = \<lparr>tool_Name = ''echo_args'', Arguments = RawInvalid\<rparr>\<rparr>"
  have h1: "(\<exists>session. Session ?c1 = Some session
              \<and> ((\<exists>err. ListRoots session = Inl err)
                 \<or> ListRoots session = Inr None
                 \<or> (\<exists>rr. ListRoots session = Inr (Some rr)
                        \<and> ParseGitHubRoots ascii_stdlib (Roots rr) ''github.com'' = [])))
           \<or> decodeArguments (Arguments (Params ?c1)) = None"
    by simp
  have p: "ParseGitHubRoots ascii_stdlib
       (Roots \<lparr>Roots = [Some \<lparr>root_URI = ''sftp://example.org/home/user/project'', root_Name = []\<rparr>]\<rparr>)
       ''github.com'' = []"
    by code_simp
  have s2: "Session ?c2 = Some (session_with_roots [''sftp://example.org/home/user/project''])"
    and l2: "ListRoots (session_with_roots [''sftp://example.org/home/user/project''])
       = Inr (Some \<lparr>Roots = [Some \<lparr>root_URI = ''sftp://example.org/home/user/project'', root_Name = []\<rparr>]\<rparr>)"
    by code_simp+
  have h2: "(\<exists>session. Session ?c2 = Some session
              \<and> ((\<exists>err. ListRoots session = Inl err)
                 \<or> ListRoots session = Inr None
                 \<or> (\<exists>rr. ListRoots session = Inr (Some rr)
                        \<and> ParseGitHubRoots ascii_stdlib (Roots rr) ''github.com'' = [])))
           \<or> decodeArguments (Arguments (Params ?c2)) = None"
    using s2 l2 p by (intro disjI1 exI [of _ "session_with_roots [''sftp://example.org/home/user/project'']"]) simp
  have "decodeArguments (Arguments (Params ?c3)) = None"
    by (simp add: decodeArguments_def)
  then have h3: "(\<exists>session. Session ?c3 = Some session
              \<and> ((\<exists>err. ListRoots session = Inl err)
                 \<or> ListRoots session = Inr None
                 \<or> (\<exists>rr. ListRoots session = Inr (Some rr)
                        \<and> ParseGitHubRoots ascii_stdlib (Roots rr) ''github.com'' = [])))
           \<or> decodeArguments (Arguments (Params ?c3)) = None"
    by (rule disjI2)
  from soft_failures_pass_through [OF h1, of echo_args "''tools/call''"]
       soft_failures_pass_through [OF h2, of echo_args "''tools/call''"]
       soft_failures_pass_through [OF h3, of echo_args "''tools/call''"]
  show ?thesis by (intro conjI) (erule conjunct1 conjunct2)+
qed

end
